theory Spec2Isabelle
  imports Complex_Main "HOL-Library.Sublist"
begin

section \<open>JavaScript strings\<close>

text \<open>
  A JavaScript string is a sequence of UTF-16 code units. The model reads a
  \<^typ>\<open>char\<close> as a code unit in the range U+0000 to U+00FF, so \<open>length\<close> counts code
  units as \<open>substring\<close> does. Within that range the ECMAScript white-space and line-terminator
  characters, which both \<open>String.prototype.trim\<close> and the regular-expression class \<open>\s\<close>
  use, are TAB, LF, VT, FF, CR, SPACE and NO-BREAK SPACE.
\<close>

definition is_ws :: "char \<Rightarrow> bool" where
  "is_ws c = (c \<in> set [CHR 0x09, CHR 0x0A, CHR 0x0B, CHR 0x0C, CHR 0x0D, CHR 0x20, CHR 0xA0])"

text \<open>\<open>s.trim()\<close>\<close>

definition trim :: "string \<Rightarrow> string" where
  "trim s = rev (dropWhile is_ws (rev (dropWhile is_ws s)))"

text \<open>\<open>s.startsWith(p)\<close>\<close>

definition startsWith :: "string \<Rightarrow> string \<Rightarrow> bool" where
  "startsWith s p = prefix p s"

text \<open>\<open>s.substring(0, n)\<close>\<close>

definition substring0 :: "nat \<Rightarrow> string \<Rightarrow> string" where
  "substring0 n s = take n s"

text \<open>
  \<open>s.toLowerCase()\<close> on code units up to U+00FF: the letters A to Z and the
  accented capitals U+00C0 to U+00DE (without the multiplication sign U+00D7) move up by 32.
\<close>

definition lower_char :: "char \<Rightarrow> char" where
  "lower_char c =
     (let n = (of_char c :: nat)
      in if (65 \<le> n \<and> n \<le> 90) \<or> (192 \<le> n \<and> n \<le> 222 \<and> n \<noteq> 215)
         then char_of (n + 32) else c)"

definition toLowerCase :: "string \<Rightarrow> string" where
  "toLowerCase s = map lower_char s"

text \<open>
  \<open>s.replace(/\s+/g, '-')\<close>: every maximal run of white space becomes one hyphen.
\<close>

function replace_ws :: "string \<Rightarrow> string" where
  "replace_ws [] = []"
| "replace_ws (c # cs) =
     (if is_ws c then CHR ''-'' # replace_ws (dropWhile is_ws cs) else c # replace_ws cs)"
  by pat_completeness auto
termination
  by (relation "measure length") (auto simp: le_imp_less_Suc length_dropWhile_le)

text \<open>
  \<open>s.replace(/PAT\s*/, '')\<close> for a literal \<open>PAT\<close>: the leftmost occurrence of \<open>PAT\<close> is
  removed together with the white space that follows it; without an occurrence the
  string is unchanged.
\<close>

fun replace_lead :: "string \<Rightarrow> string \<Rightarrow> string" where
  "replace_lead pat [] = []"
| "replace_lead pat (c # cs) =
     (if prefix pat (c # cs) then dropWhile is_ws (drop (length pat) (c # cs))
      else c # replace_lead pat cs)"

text \<open>
  \<open>s.replace(/```\s*$/, '')\<close>: the leftmost position where three backticks are followed
  only by white space up to the end of the string; the match reaches the end, so what is
  left is the text before it.
\<close>

definition fence :: string where
  "fence = [CHR 0x60, CHR 0x60, CHR 0x60]"

fun replace_trail :: "string \<Rightarrow> string" where
  "replace_trail [] = []"
| "replace_trail (c # cs) =
     (if prefix fence (c # cs) \<and> list_all is_ws (drop 3 (c # cs)) then []
      else c # replace_trail cs)"

text \<open>
  The response cleanup of \<open>getAIAnalysis\<close> (server.js): trim, then strip a
  \<open>```json\<close> fence, else a bare \<open>```\<close> fence.
\<close>

definition cleanup :: "string \<Rightarrow> string" where
  "cleanup text =
     (let content = trim text
      in if startsWith content (fence @ ''json'')
         then trim (replace_trail (replace_lead (fence @ ''json'') content))
         else if startsWith content fence
         then trim (replace_trail (replace_lead fence content))
         else content)"

section \<open>JSON values\<close>

text \<open>
  The values \<open>JSON.parse\<close> can return. A number is an IEEE double: a finite value is
  read as the rational it denotes (both zeros are 0), and an overflowing literal gives an
  infinity. An object is the list of its own properties.
\<close>

datatype number = Finite rat | Infinity bool

datatype json =
    JNull
  | JBool bool
  | JNum number
  | JStr string
  | JArr "json list"
  | JObj "(string \<times> json) list"

text \<open>
  Reading a property \<open>v.k\<close> of a value that is not \<open>null\<close>; \<open>None\<close> is \<open>undefined\<close>.
  Of the property names the program reads, primitives and arrays have none.
\<close>

fun getProp :: "json \<Rightarrow> string \<Rightarrow> json option" where
  "getProp (JObj kvs) k = map_of kvs k"
| "getProp _ k = None"

text \<open>ECMAScript \<open>ToBoolean\<close>, which \<open>!v\<close> and \<open>v || w\<close> apply.\<close>

fun truthy :: "json option \<Rightarrow> bool" where
  "truthy None = False"
| "truthy (Some JNull) = False"
| "truthy (Some (JBool b)) = b"
| "truthy (Some (JNum (Finite q))) = (q \<noteq> 0)"
| "truthy (Some (JNum (Infinity s))) = True"
| "truthy (Some (JStr s)) = (s \<noteq> [])"
| "truthy (Some (JArr xs)) = True"
| "truthy (Some (JObj kvs)) = True"

text \<open>\<open>Array.isArray(v)\<close>\<close>

fun isArray :: "json option \<Rightarrow> bool" where
  "isArray (Some (JArr xs)) = True"
| "isArray _ = False"

section \<open>Analysis invocation and normalization (getAIAnalysis, server.js)\<close>

text \<open>
  A name or URL handed around by the program is a string or missing (\<open>undefined\<close> or
  \<open>null\<close>, here \<open>None\<close>). \<open>a || b\<close> yields \<open>a\<close> when it is truthy, that is a non-empty
  string, and \<open>b\<close> otherwise.
\<close>

fun str_truthy :: "string option \<Rightarrow> bool" where
  "str_truthy None = False"
| "str_truthy (Some s) = (s \<noteq> [])"

definition js_or :: "string option \<Rightarrow> string option \<Rightarrow> string option" where
  "js_or a b = (if str_truthy a then a else b)"

text \<open>\<open>a || 'literal'\<close>, whose value is always a string.\<close>

fun js_or_str :: "string option \<Rightarrow> string \<Rightarrow> string" where
  "js_or_str None d = d"
| "js_or_str (Some s) d = (if s \<noteq> [] then s else d)"

definition safeName_of :: "string option \<Rightarrow> string" where
  "safeName_of toolName = js_or_str toolName ''Unknown Tool''"

definition safeUrl_of :: "string option \<Rightarrow> string" where
  "safeUrl_of appUrl = js_or_str appUrl ''No URL provided''"

text \<open>
  The inner \<open>try\<close> block: \<open>JSON.parse\<close> throws a SyntaxError on text that is not JSON
  (the parameter \<open>parse\<close> stands for the built-in and returns \<open>None\<close> there); reading
  \<open>parsed.name\<close> of \<open>null\<close> throws a TypeError; the structural check throws
  \<open>Invalid JSON structure\<close>. All three are caught by the same handler.
\<close>

datatype decode_error = SyntaxError | TypeError | InvalidStructure

definition decode :: "(string \<Rightarrow> json option) \<Rightarrow> string \<Rightarrow> decode_error + json" where
  "decode parse content =
     (case parse content of
        None \<Rightarrow> Inl SyntaxError
      | Some parsed \<Rightarrow>
          if parsed = JNull then Inl TypeError
          else if \<not> truthy (getProp parsed ''name'') \<or> \<not> truthy (getProp parsed ''description'')
                  \<or> \<not> isArray (getProp parsed ''features'')
                  \<or> \<not> truthy (getProp parsed ''prosCons'') \<or> \<not> isArray (getProp parsed ''useCases'')
          then Inl InvalidStructure
          else Inr parsed)"

text \<open>The object returned by the \<open>catch (parseError)\<close> handler.\<close>

definition fallback :: "string \<Rightarrow> string \<Rightarrow> string \<Rightarrow> json" where
  "fallback safeName safeUrl content =
     JObj [
       (''name'', JStr safeName),
       (''slug'', JStr (replace_ws (toLowerCase safeName))),
       (''website'', JStr safeUrl),
       (''tagline'', JStr (''AI tool analysis for '' @ safeName)),
       (''description'',
          JStr (''AI tool analysis for '' @ safeName @ ''. '' @ substring0 200 content @ ''...'')),
       (''company'', JStr ''Unknown''),
       (''longDescription'', JStr ''Analysis pending - JSON parse error''),
       (''categories'', JArr [JStr ''AI Tools'']),
       (''features'', JArr []),
       (''integrations'', JArr []),
       (''prosCons'', JObj [(''pros'', JArr []), (''cons'', JArr [])]),
       (''useCases'', JArr [])]"

text \<open>
  From the raw reply text to the payload: cleanup, decode, and the fallback when the
  decode is not accepted.
\<close>

definition normalize ::
  "(string \<Rightarrow> json option) \<Rightarrow> string \<Rightarrow> string \<Rightarrow> string \<Rightarrow> json" where
  "normalize parse safeName safeUrl text =
     (let content = cleanup text
      in case decode parse content of
           Inr parsed \<Rightarrow> parsed
         | Inl parseError \<Rightarrow> fallback safeName safeUrl content)"

text \<open>
  What the collaborator does with one request: the call throws (network, authentication,
  quota), or it returns a message whose content is a string or \<open>null\<close>.
\<close>

datatype completion = Threw string | Replied "string option"

text \<open>
  Why an attempt failed; the program stores the exception's message, the model the
  exception.
\<close>

datatype failure =
    ApiError string
  | NoContent
  | ValidationFailed "string list"
  | SaveFailed string
  | UpdateFailed string
  | FindFailed string
  | BadObjectId

text \<open>
  \<open>getAIAnalysis(toolName, appUrl)\<close>: the outer \<open>try\<close> rethrows what the call throws, and
  the TypeError of \<open>null.trim()\<close>; \<open>Inl\<close> is the thrown exception.
\<close>

definition getAIAnalysis ::
  "(string \<Rightarrow> json option) \<Rightarrow> completion \<Rightarrow> string option \<Rightarrow> string option \<Rightarrow> failure + json" where
  "getAIAnalysis parse response toolName appUrl =
     (let safeName = safeName_of toolName; safeUrl = safeUrl_of appUrl
      in case response of
           Threw msg \<Rightarrow> Inl (ApiError msg)
         | Replied None \<Rightarrow> Inl NoContent
         | Replied (Some text) \<Rightarrow> Inr (normalize parse safeName safeUrl text))"

section \<open>Raw records and the two collections\<close>

text \<open>
  A document of the collection \<open>Raw-test-data\<close>: its \<open>_id\<close>, the legacy fields a name,
  a URL or a logo may be stored under (each a string or missing), and the processing
  state the engine writes. \<open>Date\<close> values are clock readings.
\<close>

record raw_record =
  oid :: nat
  appName :: "string option"
  ai_tool_name :: "string option"
  name :: "string option"
  tool_name :: "string option"
  appUrl :: "string option"
  app_url :: "string option"
  url :: "string option"
  website :: "string option"
  appLogoUrl :: "string option"
  logo_url :: "string option"
  logo :: "string option"
  image_url :: "string option"
  status :: int
  processed_at :: "nat option"
  error_message :: "failure option"
  error_at :: "nat option"

text \<open>
  A document of the \<open>Tool\<close> model (collection \<open>Processed-test-data\<close>):
  \<open>{...aiAnalysis, logo_url, status: 10, processed_at, original_id}\<close>; the four named
  fields override what the analysis may carry under the same keys.
\<close>

record tool_doc =
  analysis :: json
  tool_logo_url :: string
  tool_status :: int
  tool_processed_at :: nat
  original_id :: nat
  tool_id :: nat

record store =
  raw_data :: "raw_record list"
  tools :: "tool_doc list"

text \<open>
  The name, URL and logo of an item, as \<open>processRawDataItem\<close> resolves them with
  chains of \<open>||\<close>.
\<close>

definition toolName_of :: "raw_record \<Rightarrow> string" where
  "toolName_of item =
     js_or_str (js_or (js_or (js_or (appName item) (ai_tool_name item)) (name item)) (tool_name item))
       ''Unknown Tool''"

definition appUrl_of :: "raw_record \<Rightarrow> string" where
  "appUrl_of item =
     js_or_str (js_or (js_or (js_or (appUrl item) (app_url item)) (url item)) (website item)) []"

definition logoUrl_of :: "raw_record \<Rightarrow> string" where
  "logoUrl_of item =
     js_or_str (js_or (js_or (js_or (appLogoUrl item) (logo_url item)) (logo item)) (image_url item)) []"

text \<open>
  The schema of the \<open>Tool\<close> model declares seven string paths \<open>required\<close>. Mongoose's
  required validator of a string path rejects \<open>undefined\<close>, \<open>null\<close> and the empty string.
\<close>

definition required_paths :: "string list" where
  "required_paths =
     [''name'', ''slug'', ''website'', ''tagline'', ''description'', ''company'', ''longDescription'']"

fun path_missing :: "json option \<Rightarrow> bool" where
  "path_missing None = True"
| "path_missing (Some JNull) = True"
| "path_missing (Some (JStr s)) = (s = [])"
| "path_missing (Some v) = False"

definition missing_required :: "json \<Rightarrow> string list" where
  "missing_required doc = filter (\<lambda>k. path_missing (getProp doc k)) required_paths"

text \<open>
  What surrounds one processing attempt: the collaborator's behaviour, the clock, the id
  the result store assigns, and for each of the three writes whether the store or the
  object mapper rejects it for a reason of its own (a cast error, a nested validator, the
  unique index on \<open>slug\<close>, a lost connection), with the message of the exception.
\<close>

record attempt_env =
  response :: completion
  now :: nat
  new_id :: nat
  save_fault :: "string option"
  processed_update_fault :: "string option"
  failed_update_fault :: "string option"

text \<open>
  \<open>tool.save()\<close>: validation against the required paths, then the insert.
\<close>

definition save :: "string option \<Rightarrow> tool_doc \<Rightarrow> tool_doc list \<Rightarrow> failure + tool_doc list" where
  "save fault tool coll =
     (if missing_required (analysis tool) \<noteq> [] then
        Inl (ValidationFailed (missing_required (analysis tool)))
      else case fault of
             Some msg \<Rightarrow> Inl (SaveFailed msg)
           | None \<Rightarrow> Inr (coll @ [tool]))"

text \<open>
  \<open>rawCollection.updateOne({ _id: i }, { $set: ... })\<close>: the first document with that
  id is updated; without one nothing changes.
\<close>

fun update_first :: "nat \<Rightarrow> (raw_record \<Rightarrow> raw_record) \<Rightarrow> raw_record list \<Rightarrow> raw_record list" where
  "update_first i f [] = []"
| "update_first i f (r # rs) = (if oid r = i then f r # rs else r # update_first i f rs)"

definition updateOne ::
  "string option \<Rightarrow> nat \<Rightarrow> (raw_record \<Rightarrow> raw_record) \<Rightarrow> raw_record list
     \<Rightarrow> failure + raw_record list" where
  "updateOne fault i f coll =
     (case fault of
        Some msg \<Rightarrow> Inl (UpdateFailed msg)
      | None \<Rightarrow> Inr (update_first i f coll))"

text \<open>Reading one document by id, to observe the store.\<close>

definition find_raw :: "nat \<Rightarrow> raw_record list \<Rightarrow> raw_record option" where
  "find_raw i coll = find (\<lambda>r. oid r = i) coll"

section \<open>One processing attempt (processRawDataItem, server.js)\<close>

text \<open>
  The result object: \<open>{ success: true, processedId, originalId }\<close> or
  \<open>{ success: false, error, originalId }\<close>.
\<close>

datatype item_result = Success nat nat | Failure failure nat

fun success :: "item_result \<Rightarrow> bool" where
  "success (Success p i) = True"
| "success (Failure e i) = False"

fun originalId :: "item_result \<Rightarrow> nat" where
  "originalId (Success p i) = i"
| "originalId (Failure e i) = i"

text \<open>
  The \<open>try\<close> block. Its value is the saved tool's id, or the exception that left the
  block; the store is returned as the block left it, so a tool saved before a later
  exception stays saved.
\<close>

definition try_process ::
  "(string \<Rightarrow> json option) \<Rightarrow> attempt_env \<Rightarrow> raw_record \<Rightarrow> store \<Rightarrow> (failure + nat) \<times> store" where
  "try_process parse env item st =
     (let toolName = toolName_of item; appUrl = appUrl_of item; logoUrl = logoUrl_of item
      in case getAIAnalysis parse (response env) (Some toolName) (Some appUrl) of
           Inl error \<Rightarrow> (Inl error, st)
         | Inr aiAnalysis \<Rightarrow>
             (let tool = \<lparr>analysis = aiAnalysis, tool_logo_url = logoUrl, tool_status = 10,
                          tool_processed_at = now env, original_id = oid item,
                          tool_id = new_id env\<rparr>
              in (case save (save_fault env) tool (tools st) of
                    Inl error \<Rightarrow> (Inl error, st)
                  | Inr saved \<Rightarrow>
                      (let st1 = st\<lparr>tools := saved\<rparr>
                       in (case updateOne (processed_update_fault env) (oid item)
                                   (\<lambda>r. r\<lparr>status := 1, processed_at := Some (now env)\<rparr>)
                                   (raw_data st1) of
                             Inl error \<Rightarrow> (Inl error, st1)
                           | Inr updated \<Rightarrow>
                               (Inr (tool_id tool), st1\<lparr>raw_data := updated\<rparr>))))))"

text \<open>
  The whole function: the \<open>catch\<close> handler writes status -1 with the message and the
  time. An exception of that write leaves the function (\<open>Inl\<close>).
\<close>

definition processRawDataItem ::
  "(string \<Rightarrow> json option) \<Rightarrow> attempt_env \<Rightarrow> raw_record \<Rightarrow> store
     \<Rightarrow> (failure + item_result) \<times> store" where
  "processRawDataItem parse env item st =
     (case try_process parse env item st of
        (Inr processedId, st1) \<Rightarrow> (Inr (Success processedId (oid item)), st1)
      | (Inl error, st1) \<Rightarrow>
          (case updateOne (failed_update_fault env) (oid item)
                  (\<lambda>r. r\<lparr>status := - 1, error_message := Some error, error_at := Some (now env)\<rparr>)
                  (raw_data st1) of
             Inl thrown \<Rightarrow> (Inl thrown, st1)
           | Inr updated \<Rightarrow> (Inr (Failure error (oid item)), st1\<lparr>raw_data := updated\<rparr>)))"

section \<open>The triggers (server.js)\<close>

text \<open>What a route answers.\<close>

datatype reply =
    NoPending
  | Completed nat nat "item_result list"
  | NotFound
  | ItemProcessed nat
  | ItemError failure
  | ServerError failure

text \<open>\<open>rawCollection.find({ status: 0 }).toArray()\<close>\<close>

definition find_pending :: "string option \<Rightarrow> raw_record list \<Rightarrow> failure + raw_record list" where
  "find_pending fault coll =
     (case fault of
        Some msg \<Rightarrow> Inl (FindFailed msg)
      | None \<Rightarrow> Inr (filter (\<lambda>r. status r = 0) coll))"

text \<open>
  The \<open>for\<close> loop of the route \<open>/process-raw-data\<close>: one attempt after the other, each
  result pushed; an exception of an attempt leaves the loop. Each item is attempted in
  the environment \<open>envs\<close> gives for its id.
\<close>

fun process_loop ::
  "(string \<Rightarrow> json option) \<Rightarrow> (nat \<Rightarrow> attempt_env) \<Rightarrow> raw_record list \<Rightarrow> item_result list \<Rightarrow> store
     \<Rightarrow> (failure + item_result list) \<times> store" where
  "process_loop parse envs [] results st = (Inr results, st)"
| "process_loop parse envs (item # items) results st =
     (case processRawDataItem parse (envs (oid item)) item st of
        (Inl thrown, st1) \<Rightarrow> (Inl thrown, st1)
      | (Inr result, st1) \<Rightarrow> process_loop parse envs items (results @ [result]) st1)"

text \<open>The route \<open>POST /process-raw-data\<close>.\<close>

definition process_raw_data ::
  "(string \<Rightarrow> json option) \<Rightarrow> string option \<Rightarrow> (nat \<Rightarrow> attempt_env) \<Rightarrow> store \<Rightarrow> reply \<times> store" where
  "process_raw_data parse find_fault envs st =
     (case find_pending find_fault (raw_data st) of
        Inl thrown \<Rightarrow> (ServerError thrown, st)
      | Inr pendingItems \<Rightarrow>
          (if length pendingItems = 0 then (NoPending, st)
           else (case process_loop parse envs pendingItems [] st of
                   (Inl thrown, st1) \<Rightarrow> (ServerError thrown, st1)
                 | (Inr results, st1) \<Rightarrow>
                     (Completed (length (filter success results))
                        (length (filter (\<lambda>r. \<not> success r) results)) results, st1))))"

text \<open>
  The route \<open>POST /process-item/:id\<close>. \<open>new ObjectId(itemId)\<close> throws on a string that
  is not an id; the parameter \<open>objectId\<close> stands for the driver's constructor.
\<close>

definition process_item ::
  "(string \<Rightarrow> json option) \<Rightarrow> (string \<Rightarrow> nat option) \<Rightarrow> string option \<Rightarrow> attempt_env \<Rightarrow> string
     \<Rightarrow> store \<Rightarrow> reply \<times> store" where
  "process_item parse objectId find_fault env itemId st =
     (case objectId itemId of
        None \<Rightarrow> (ServerError BadObjectId, st)
      | Some i \<Rightarrow>
          (case find_fault of
             Some msg \<Rightarrow> (ServerError (FindFailed msg), st)
           | None \<Rightarrow>
               (case find (\<lambda>r. oid r = i \<and> status r = 0) (raw_data st) of
                  None \<Rightarrow> (NotFound, st)
                | Some item \<Rightarrow>
                    (case processRawDataItem parse env item st of
                       (Inl thrown, st1) \<Rightarrow> (ServerError thrown, st1)
                     | (Inr (Success processedId orig), st1) \<Rightarrow> (ItemProcessed processedId, st1)
                     | (Inr (Failure error orig), st1) \<Rightarrow> (ItemError error, st1)))))"

text \<open>
  \<open>autoProcessPendingData\<close>: the count, the selection, and the loop with its two
  counters. The function returns nothing; its value here is what its last log line
  reports (\<open>Success\<close> and \<open>Failed\<close>), or \<open>None\<close> when it logs no summary.
\<close>

fun auto_loop ::
  "(string \<Rightarrow> json option) \<Rightarrow> (nat \<Rightarrow> attempt_env) \<Rightarrow> raw_record list \<Rightarrow> nat \<Rightarrow> nat \<Rightarrow> store
     \<Rightarrow> (failure + nat \<times> nat) \<times> store" where
  "auto_loop parse envs [] processed failed st = (Inr (processed, failed), st)"
| "auto_loop parse envs (item # items) processed failed st =
     (case processRawDataItem parse (envs (oid item)) item st of
        (Inl thrown, st1) \<Rightarrow> (Inl thrown, st1)
      | (Inr result, st1) \<Rightarrow>
          if success result then auto_loop parse envs items (processed + 1) failed st1
          else auto_loop parse envs items processed (failed + 1) st1)"

definition autoProcessPendingData ::
  "(string \<Rightarrow> json option) \<Rightarrow> string option \<Rightarrow> string option \<Rightarrow> (nat \<Rightarrow> attempt_env) \<Rightarrow> store
     \<Rightarrow> (nat \<times> nat) option \<times> store" where
  "autoProcessPendingData parse count_fault find_fault envs st =
     (case count_fault of
        Some msg \<Rightarrow> (None, st)
      | None \<Rightarrow>
          (let pendingCount = length (filter (\<lambda>r. status r = 0) (raw_data st))
           in if pendingCount = 0 then (None, st)
              else (case find_pending find_fault (raw_data st) of
                      Inl thrown \<Rightarrow> (None, st)
                    | Inr pendingItems \<Rightarrow>
                        (case auto_loop parse envs pendingItems 0 0 st of
                           (Inl thrown, st1) \<Rightarrow> (None, st1)
                         | (Inr summary, st1) \<Rightarrow> (Some summary, st1)))))"

section \<open>The specification's notions\<close>

text \<open>
  Resolution by precedence, in the specification's words: the first candidate that is
  present and not empty, else the sentinel.
\<close>

definition first_nonempty :: "string option list \<Rightarrow> string \<Rightarrow> string" where
  "first_nonempty candidates sentinel =
     (case find str_truthy candidates of Some (Some s) \<Rightarrow> s | _ \<Rightarrow> sentinel)"

text \<open>
  The invariant of an enriched record, in the specification's words: a name and a
  description that are there, a feature list, and a pros/cons structure holding two lists.
\<close>

fun is_text :: "json option \<Rightarrow> bool" where
  "is_text (Some (JStr s)) = True"
| "is_text _ = False"

definition enriched_invariant :: "json \<Rightarrow> bool" where
  "enriched_invariant p =
     (is_text (getProp p ''name'') \<and> is_text (getProp p ''description'')
      \<and> isArray (getProp p ''features'')
      \<and> (case getProp p ''prosCons'' of
            None \<Rightarrow> False
          | Some pc \<Rightarrow> isArray (getProp pc ''pros'') \<and> isArray (getProp pc ''cons'')))"

text \<open>
  The list-valued fields of a payload, and the reading of the specification in which all of
  them are empty lists.
\<close>

definition list_fields :: "json \<Rightarrow> json option list" where
  "list_fields p =
     [getProp p ''categories'', getProp p ''features'', getProp p ''integrations'',
      getProp p ''useCases'',
      (case getProp p ''prosCons'' of None \<Rightarrow> None | Some pc \<Rightarrow> getProp pc ''pros''),
      (case getProp p ''prosCons'' of None \<Rightarrow> None | Some pc \<Rightarrow> getProp pc ''cons'')]"

definition list_fields_empty :: "json \<Rightarrow> bool" where
  "list_fields_empty p = list_all (\<lambda>v. v = Some (JArr [])) (list_fields p)"

definition list_fields_present :: "json \<Rightarrow> bool" where
  "list_fields_present p = list_all isArray (list_fields p)"

text \<open>
  Acceptance of a decoded reply, in the specification's words: a non-empty name, a
  non-empty description, a list-typed feature collection, a present pros/cons structure,
  and a list-typed use-case collection.
\<close>

fun nonempty_text :: "json option \<Rightarrow> bool" where
  "nonempty_text (Some (JStr s)) = (s \<noteq> [])"
| "nonempty_text _ = False"

fun list_typed :: "json option \<Rightarrow> bool" where
  "list_typed (Some (JArr xs)) = True"
| "list_typed _ = False"

fun present_structure :: "json option \<Rightarrow> bool" where
  "present_structure (Some (JObj kvs)) = True"
| "present_structure _ = False"

definition claimed_acceptance :: "json \<Rightarrow> bool" where
  "claimed_acceptance p =
     (nonempty_text (getProp p ''name'') \<and> nonempty_text (getProp p ''description'')
      \<and> list_typed (getProp p ''features'') \<and> present_structure (getProp p ''prosCons'')
      \<and> list_typed (getProp p ''useCases''))"

text \<open>
  The values JavaScript takes for false: a missing property, \<open>null\<close>, \<open>false\<close>, zero and
  the empty string.
\<close>

definition falsy_values :: "json list" where
  "falsy_values = [JNull, JBool False, JNum (Finite 0), JStr []]"

fun js_falsy :: "json option \<Rightarrow> bool" where
  "js_falsy None = True"
| "js_falsy (Some v) = (v \<in> set falsy_values)"

text \<open>
  A reply is typed as the specification's record is when its name and description are
  strings and its pros/cons is an object, each of them possibly missing or \<open>null\<close>.
\<close>

fun text_or_missing :: "json option \<Rightarrow> bool" where
  "text_or_missing None = True"
| "text_or_missing (Some JNull) = True"
| "text_or_missing (Some (JStr s)) = True"
| "text_or_missing (Some v) = False"

fun structure_or_missing :: "json option \<Rightarrow> bool" where
  "structure_or_missing None = True"
| "structure_or_missing (Some JNull) = True"
| "structure_or_missing (Some (JObj kvs)) = True"
| "structure_or_missing (Some v) = False"

definition well_typed :: "json \<Rightarrow> bool" where
  "well_typed p =
     (text_or_missing (getProp p ''name'') \<and> text_or_missing (getProp p ''description'')
      \<and> structure_or_missing (getProp p ''prosCons''))"

text \<open>A capital letter A to Z.\<close>

definition is_capital :: "char \<Rightarrow> bool" where
  "is_capital c = (65 \<le> (of_char c :: nat) \<and> (of_char c :: nat) \<le> 90)"

section \<open>Sample data\<close>

text \<open>
  Three reply texts with the values \<open>JSON.parse\<close> gives for them: a complete analysis,
  one that passes the structural check of \<open>getAIAnalysis\<close> but has no \<open>slug\<close>, \<open>website\<close>,
  \<open>tagline\<close>, \<open>company\<close> or \<open>longDescription\<close>, and one with a name only. \<open>sample_parse\<close>
  is \<open>JSON.parse\<close> on these three texts and throws on every other; it is applied below
  only to texts on which \<open>JSON.parse\<close> throws as well.
\<close>

definition complete_text :: string where
  \<open>complete_text =
     ''{"name":"Acme","slug":"acme","website":"https://acme.test","tagline":"t","description":"d","company":"c","longDescription":"l","categories":[],"features":[],"integrations":[],"prosCons":{"pros":[],"cons":[]},"useCases":[]}''\<close>

definition complete_payload :: json where
  "complete_payload =
     JObj [
       (''name'', JStr ''Acme''),
       (''slug'', JStr ''acme''),
       (''website'', JStr ''https://acme.test''),
       (''tagline'', JStr ''t''),
       (''description'', JStr ''d''),
       (''company'', JStr ''c''),
       (''longDescription'', JStr ''l''),
       (''categories'', JArr []),
       (''features'', JArr []),
       (''integrations'', JArr []),
       (''prosCons'', JObj [(''pros'', JArr []), (''cons'', JArr [])]),
       (''useCases'', JArr [])]"

definition incomplete_text :: string where
  \<open>incomplete_text =
     ''{"name":"Acme","description":"d","features":[],"prosCons":{},"useCases":[]}''\<close>

definition incomplete_payload :: json where
  "incomplete_payload =
     JObj [
       (''name'', JStr ''Acme''),
       (''description'', JStr ''d''),
       (''features'', JArr []),
       (''prosCons'', JObj []),
       (''useCases'', JArr [])]"

definition partial_text :: string where
  \<open>partial_text = ''{"name":"Acme"}''\<close>

definition partial_payload :: json where
  "partial_payload = JObj [(''name'', JStr ''Acme'')]"

definition sample_parse :: "string \<Rightarrow> json option" where
  "sample_parse =
     map_of [(complete_text, complete_payload), (incomplete_text, incomplete_payload),
             (partial_text, partial_payload)]"

text \<open>
  Three more reply texts with the values \<open>JSON.parse\<close> gives for them: one whose name is
  an empty array, whose description is an empty object and whose \<open>prosCons\<close> is \<open>true\<close>;
  one whose \<open>prosCons\<close> is \<open>false\<close>; and one with the seven strings the schema requires
  and nothing else. \<open>odd_parse\<close> is \<open>JSON.parse\<close> on these and on the complete analysis.
\<close>

definition odd_text :: string where
  \<open>odd_text = ''{"name":[],"description":{},"features":[],"prosCons":true,"useCases":[]}''\<close>

definition odd_payload :: json where
  "odd_payload =
     JObj [(''name'', JArr []), (''description'', JObj []), (''features'', JArr []),
           (''prosCons'', JBool True), (''useCases'', JArr [])]"

definition unset_text :: string where
  \<open>unset_text = ''{"name":"Acme","description":"d","features":[],"prosCons":false,"useCases":[]}''\<close>

definition unset_payload :: json where
  "unset_payload =
     JObj [(''name'', JStr ''Acme''), (''description'', JStr ''d''), (''features'', JArr []),
           (''prosCons'', JBool False), (''useCases'', JArr [])]"

definition strings_only_text :: string where
  \<open>strings_only_text =
     ''{"name":"Acme","slug":"acme","website":"https://acme.test","tagline":"t","description":"d","company":"c","longDescription":"l"}''\<close>

definition strings_only_payload :: json where
  "strings_only_payload =
     JObj [(''name'', JStr ''Acme''), (''slug'', JStr ''acme''),
           (''website'', JStr ''https://acme.test''), (''tagline'', JStr ''t''),
           (''description'', JStr ''d''), (''company'', JStr ''c''),
           (''longDescription'', JStr ''l'')]"

definition odd_parse :: "string \<Rightarrow> json option" where
  "odd_parse =
     map_of [(odd_text, odd_payload), (unset_text, unset_payload),
             (strings_only_text, strings_only_payload), (complete_text, complete_payload)]"

text \<open>A raw record with one name field and one URL field set, and an environment without faults.\<close>

definition raw_item :: "nat \<Rightarrow> string \<Rightarrow> int \<Rightarrow> raw_record" where
  "raw_item i n s =
     \<lparr>oid = i, appName = None, ai_tool_name = Some n, name = None, tool_name = None,
      appUrl = None, app_url = Some ''https://acme.test'', url = None, website = None,
      appLogoUrl = None, logo_url = None, logo = None, image_url = None,
      status = s, processed_at = None, error_message = None, error_at = None\<rparr>"

definition calm_env :: "completion \<Rightarrow> attempt_env" where
  "calm_env c =
     \<lparr>response = c, now = 7, new_id = 100, save_fault = None,
      processed_update_fault = None, failed_update_fault = None\<rparr>"

section \<open>Notions used in the statements\<close>

text \<open>An update of a document that leaves its id alone.\<close>

definition keeps_oid :: "(raw_record \<Rightarrow> raw_record) \<Rightarrow> bool" where
  "keeps_oid f = (\<forall>r. oid (f r) = oid r)"

text \<open>The two \<open>$set\<close> documents of \<open>processRawDataItem\<close>.\<close>

abbreviation mark_processed :: "nat \<Rightarrow> raw_record \<Rightarrow> raw_record" where
  "mark_processed t \<equiv> (\<lambda>r. r\<lparr>status := 1, processed_at := Some t\<rparr>)"

abbreviation mark_failed :: "failure \<Rightarrow> nat \<Rightarrow> raw_record \<Rightarrow> raw_record" where
  "mark_failed e t \<equiv> (\<lambda>r. r\<lparr>status := - 1, error_message := Some e, error_at := Some t\<rparr>)"

text \<open>The document \<open>processRawDataItem\<close> builds from an analysis.\<close>

definition new_tool :: "attempt_env \<Rightarrow> raw_record \<Rightarrow> json \<Rightarrow> tool_doc" where
  "new_tool env item a =
     \<lparr>analysis = a, tool_logo_url = logoUrl_of item, tool_status = 10,
      tool_processed_at = now env, original_id = oid item, tool_id = new_id env\<rparr>"


section \<open>Sample stores and environments\<close>

text \<open>
  Three pending records and a processed one. The collaborator answers with the complete
  analysis for the first record, fails for the second, and answers in prose for the
  third. \<open>outage_envs\<close> instead fails the first record's analysis and the write of its
  failure.
\<close>

definition scenario_store :: store where
  "scenario_store =
     \<lparr>raw_data = [raw_item 1 ''Acme'' 0, raw_item 2 ''Beta'' 0, raw_item 3 ''Gamma'' 0,
                  raw_item 4 ''Done'' 1],
      tools = []\<rparr>"

definition scenario_envs :: "nat \<Rightarrow> attempt_env" where
  "scenario_envs i =
     (if i = 2 then calm_env (Threw ''quota exceeded'')
      else if i = 3 then (calm_env (Replied (Some ''Sorry, I cannot help.'')))\<lparr>new_id := 103\<rparr>
      else (calm_env (Replied (Some complete_text)))\<lparr>new_id := 101\<rparr>)"

definition outage_envs :: "nat \<Rightarrow> attempt_env" where
  "outage_envs i =
     (if i = 1 then (calm_env (Threw ''quota exceeded''))\<lparr>failed_update_fault := Some ''connection lost''\<rparr>
      else calm_env (Replied (Some complete_text)))"

text \<open>
  An environment whose update to status 1 throws, one in which the update to status -1
  throws as well, a collection with a single pending record, and an \<open>ObjectId\<close>
  constructor that knows three ids.
\<close>

definition timeout_env :: "completion \<Rightarrow> attempt_env" where
  "timeout_env c = (calm_env c)\<lparr>processed_update_fault := Some ''write timeout''\<rparr>"

definition outage_env :: "completion \<Rightarrow> attempt_env" where
  "outage_env c = (timeout_env c)\<lparr>failed_update_fault := Some ''connection lost''\<rparr>"

definition one_pending :: "nat \<Rightarrow> store" where
  "one_pending i = \<lparr>raw_data = [raw_item i ''Acme'' 0], tools = []\<rparr>"


text \<open>
  An environment in which only the write of a failure throws, and a collection with two
  pending records.
\<close>

definition lost_env :: "completion \<Rightarrow> attempt_env" where
  "lost_env c = (calm_env c)\<lparr>failed_update_fault := Some ''connection lost''\<rparr>"

definition two_pending :: store where
  "two_pending = \<lparr>raw_data = [raw_item 1 ''Acme'' 0, raw_item 2 ''Beta'' 0], tools = []\<rparr>"

section \<open>Name and URL resolution\<close>

lemma js_or_chain:
  "js_or_str (js_or (js_or (js_or a b) c) d) z = first_nonempty [a, b, c, d] z"
  by (cases a; cases b; cases c; cases d) (auto simp: js_or_def first_nonempty_def)

lemma find_str_truthy: "find str_truthy fs = Some x \<Longrightarrow> \<exists>s. x = Some s \<and> s \<noteq> []"
proof (induction fs)
  case Nil
  then show ?case by simp
next
  case (Cons f fs)
  then show ?case by (cases f) (auto split: if_splits)
qed

lemma first_nonempty_nonempty: "z \<noteq> [] \<Longrightarrow> first_nonempty fs z \<noteq> []"
  by (auto simp: first_nonempty_def split: option.splits dest: find_str_truthy)

lemma js_or_str_first_nonempty:
  "js_or_str (Some (first_nonempty fs [])) z = first_nonempty fs z"
  by (auto simp: first_nonempty_def split: option.splits dest: find_str_truthy)

lemma safeName_nonempty: "safeName_of n \<noteq> []"
  by (cases n) (simp_all add: safeName_of_def)

lemma safeUrl_nonempty: "safeUrl_of u \<noteq> []"
  by (cases u) (simp_all add: safeUrl_of_def)

text \<open>
  C8. The name the analysis is asked about is the first non-empty one of \<open>appName\<close>,
  \<open>ai_tool_name\<close>, \<open>name\<close>, \<open>tool_name\<close>, and \<open>Unknown Tool\<close> when all four are missing or
  empty. The URL it is asked about is the first non-empty one of \<open>appUrl\<close>, \<open>app_url\<close>,
  \<open>url\<close>, \<open>website\<close>, and \<open>No URL provided\<close> when all four are missing or empty; neither
  is ever the empty string.
\<close>

theorem resolution_precedence:
  "safeName_of (Some (toolName_of item)) =
     first_nonempty [appName item, ai_tool_name item, name item, tool_name item] ''Unknown Tool''
   \<and> safeUrl_of (Some (appUrl_of item)) =
     first_nonempty [appUrl item, app_url item, url item, website item] ''No URL provided''
   \<and> safeName_of (Some (toolName_of item)) \<noteq> []
   \<and> safeUrl_of (Some (appUrl_of item)) \<noteq> []"
proof -
  have n: "safeName_of (Some (toolName_of item)) =
     first_nonempty [appName item, ai_tool_name item, name item, tool_name item] ''Unknown Tool''"
    by (simp add: safeName_of_def toolName_of_def js_or_chain first_nonempty_nonempty)
  have u: "safeUrl_of (Some (appUrl_of item)) =
     first_nonempty [appUrl item, app_url item, url item, website item] ''No URL provided''"
    unfolding safeUrl_of_def appUrl_of_def js_or_chain by (rule js_or_str_first_nonempty)
  show ?thesis
    unfolding n u by (simp add: first_nonempty_nonempty)
qed

theorem resolution_precedence_witness:
  "safeName_of (Some (toolName_of ((raw_item 1 ''Acme'' 0)\<lparr>appName := Some [], tool_name := Some ''Other''\<rparr>)))
     = ''Acme''
   \<and> safeName_of (Some (toolName_of ((raw_item 1 [] 0)\<lparr>appName := Some []\<rparr>))) = ''Unknown Tool''
   \<and> safeUrl_of (Some (appUrl_of ((raw_item 1 [] 0)\<lparr>app_url := Some []\<rparr>))) = ''No URL provided''"
proof -
  have a: "first_nonempty [Some [], Some ''Acme'', None, Some ''Other''] ''Unknown Tool'' = ''Acme''"
    by (simp add: first_nonempty_def)
  have b: "first_nonempty [Some [], Some [], None, None] ''Unknown Tool'' = ''Unknown Tool''"
    by (simp add: first_nonempty_def)
  have c: "first_nonempty [None, Some [], None, None] ''No URL provided'' = ''No URL provided''"
    by (simp add: first_nonempty_def)
  show ?thesis
    using resolution_precedence [of "(raw_item 1 ''Acme'' 0)\<lparr>appName := Some [], tool_name := Some ''Other''\<rparr>"]
      resolution_precedence [of "(raw_item 1 [] 0)\<lparr>appName := Some []\<rparr>"]
      resolution_precedence [of "(raw_item 1 [] 0)\<lparr>app_url := Some []\<rparr>"]
    by (simp add: raw_item_def a b c)
qed

section \<open>Acceptance of a decoded reply\<close>

text \<open>The program's truthiness test rejects exactly the five values taken for false.\<close>

lemma truthy_not_falsy: "truthy v = (\<not> js_falsy v)"
proof (cases v)
  case None
  then show ?thesis by simp
next
  case (Some j)
  show ?thesis
  proof (cases j)
    case (JNum n)
    with Some show ?thesis by (cases n) (simp_all add: falsy_values_def)
  qed (simp_all add: Some falsy_values_def)
qed

lemma isArray_list_typed: "isArray v = list_typed v"
  by (cases v rule: list_typed.cases) simp_all

lemma text_truthy: "text_or_missing v \<Longrightarrow> truthy v = nonempty_text v"
  by (cases v rule: text_or_missing.cases) simp_all

lemma structure_truthy: "structure_or_missing v \<Longrightarrow> truthy v = present_structure v"
  by (cases v rule: structure_or_missing.cases) simp_all

lemma nonempty_text_truthy: "nonempty_text v \<Longrightarrow> truthy v"
  by (cases v rule: nonempty_text.cases) simp_all

lemma present_structure_truthy: "present_structure v \<Longrightarrow> truthy v"
  by (cases v rule: present_structure.cases) simp_all

lemma decode_Inr:
  "(decode parse content = Inr parsed) =
     (parse content = Some parsed
      \<and> truthy (getProp parsed ''name'') \<and> truthy (getProp parsed ''description'')
      \<and> isArray (getProp parsed ''features'') \<and> truthy (getProp parsed ''prosCons'')
      \<and> isArray (getProp parsed ''useCases''))"
  by (auto simp: decode_def split: option.splits)

text \<open>
  C2, as the program has it. The inner \<open>try\<close> block returns the decoded value exactly when
  \<open>JSON.parse\<close> returns it, its \<open>name\<close>, \<open>description\<close> and \<open>prosCons\<close> are none of
  missing, \<open>null\<close>, \<open>false\<close>, zero and the empty string, and its \<open>features\<close> and
  \<open>useCases\<close> are arrays. For a reply typed as the record is (name and description
  strings, \<open>prosCons\<close> an object, each possibly missing or \<open>null\<close>) this is the
  specification's condition: a non-empty name, a non-empty description, a list of
  features, a pros/cons object and a list of use cases; and every reply that meets the
  specification's condition is accepted. Whatever exception leaves the block, a syntax
  error of the parser, the type error on \<open>null\<close> or the structural check, the payload is
  the same fallback object.
\<close>

theorem decode_accepts_iff:
  "(decode parse content = Inr parsed \<longleftrightarrow>
      parse content = Some parsed
      \<and> \<not> js_falsy (getProp parsed ''name'') \<and> \<not> js_falsy (getProp parsed ''description'')
      \<and> list_typed (getProp parsed ''features'') \<and> \<not> js_falsy (getProp parsed ''prosCons'')
      \<and> list_typed (getProp parsed ''useCases''))
   \<and> (well_typed parsed \<longrightarrow>
        (decode parse content = Inr parsed \<longleftrightarrow>
           parse content = Some parsed \<and> claimed_acceptance parsed))
   \<and> (parse content = Some parsed \<and> claimed_acceptance parsed \<longrightarrow>
        decode parse content = Inr parsed)
   \<and> (decode parse (cleanup text) = Inr parsed \<longrightarrow>
        normalize parse safeName safeUrl text = parsed)
   \<and> (decode parse (cleanup text) = Inl e \<longrightarrow>
        normalize parse safeName safeUrl text = fallback safeName safeUrl (cleanup text))"
proof -
  have a: "decode parse content = Inr parsed \<longleftrightarrow>
      parse content = Some parsed
      \<and> \<not> js_falsy (getProp parsed ''name'') \<and> \<not> js_falsy (getProp parsed ''description'')
      \<and> list_typed (getProp parsed ''features'') \<and> \<not> js_falsy (getProp parsed ''prosCons'')
      \<and> list_typed (getProp parsed ''useCases'')"
    unfolding decode_Inr truthy_not_falsy isArray_list_typed ..
  have b: "decode parse content = Inr parsed \<longleftrightarrow>
           parse content = Some parsed \<and> claimed_acceptance parsed" if "well_typed parsed"
    using that unfolding decode_Inr isArray_list_typed claimed_acceptance_def well_typed_def
    by (auto simp: text_truthy structure_truthy)
  have c: "decode parse content = Inr parsed" if "parse content = Some parsed \<and> claimed_acceptance parsed"
    using that unfolding decode_Inr isArray_list_typed claimed_acceptance_def
    by (auto simp: nonempty_text_truthy present_structure_truthy)
  have d: "decode parse (cleanup text) = Inr parsed \<longrightarrow>
        normalize parse safeName safeUrl text = parsed"
    "decode parse (cleanup text) = Inl e \<longrightarrow>
        normalize parse safeName safeUrl text = fallback safeName safeUrl (cleanup text)"
    by (simp_all add: normalize_def)
  show ?thesis using a b c d by blast
qed

theorem decode_accepts_iff_witness:
  "decode sample_parse complete_text = Inr complete_payload
   \<and> well_typed complete_payload \<and> claimed_acceptance complete_payload
   \<and> decode odd_parse odd_text = Inr odd_payload
   \<and> normalize sample_parse ''Acme'' ''u'' ''prose'' = fallback ''Acme'' ''u'' ''prose''"
proof -
  have a: "sample_parse complete_text = Some complete_payload \<and> claimed_acceptance complete_payload"
    by code_simp
  have w: "well_typed complete_payload" by code_simp
  have o: "odd_parse odd_text = Some odd_payload
      \<and> \<not> js_falsy (getProp odd_payload ''name'') \<and> \<not> js_falsy (getProp odd_payload ''description'')
      \<and> list_typed (getProp odd_payload ''features'') \<and> \<not> js_falsy (getProp odd_payload ''prosCons'')
      \<and> list_typed (getProp odd_payload ''useCases'')"
    by code_simp
  have b: "decode sample_parse (cleanup ''prose'') = Inl SyntaxError"
    by code_simp
  have c: "cleanup ''prose'' = ''prose''"
    by code_simp
  show ?thesis
    using decode_accepts_iff [of sample_parse complete_text complete_payload "''prose''" "''Acme''" "''u''" SyntaxError]
      decode_accepts_iff [of odd_parse odd_text odd_payload]
      a w o b c
    by simp
qed

text \<open>
  The claim as written fails in both directions on replies that are not typed as the record
  is: a reply whose name is an empty array, whose description is an empty object and whose
  \<open>prosCons\<close> is \<open>true\<close> is accepted, and a reply with a name, a description, both lists
  and a \<open>prosCons\<close> that is present with the value \<open>false\<close> is not.
\<close>

theorem claimed_acceptance_counterexample:
  "decode odd_parse odd_text = Inr odd_payload
   \<and> \<not> claimed_acceptance odd_payload
   \<and> \<not> nonempty_text (getProp odd_payload ''name'')
   \<and> \<not> nonempty_text (getProp odd_payload ''description'')
   \<and> \<not> present_structure (getProp odd_payload ''prosCons'')
   \<and> getProp unset_payload ''prosCons'' = Some (JBool False)
   \<and> decode odd_parse unset_text = Inl InvalidStructure"
  by code_simp

section \<open>Response cleanup\<close>

lemma replace_lead_at_start:
  "prefix pat s \<Longrightarrow> replace_lead pat s = dropWhile is_ws (drop (length pat) s)"
  by (cases s) auto

lemma suffix_replace_lead_at_start:
  "prefix pat s \<Longrightarrow> suffix (replace_lead pat s) s"
  by (simp add: replace_lead_at_start suffix_order.trans[OF suffix_dropWhile suffix_drop])

lemma prefix_replace_trail: "prefix (replace_trail s) s"
  by (induction s) auto

lemma not_ws_backtick: "\<not> is_ws (CHR 0x60)"
  by (simp add: is_ws_def)

text \<open>A closing fence at the very end is the match, and only it is removed.\<close>

lemma replace_trail_closing_fence: "replace_trail (u @ fence) = u"
proof (induction u)
  case Nil
  show ?case by (simp add: fence_def)
next
  case (Cons c u)
  have len: "length (c # u @ fence) = length u + 4" by (simp add: fence_def)
  then have "length (drop 3 (c # u @ fence)) = Suc (length u)" by simp
  then have "drop 3 (c # u @ fence) \<noteq> []" by auto
  moreover have "last (drop 3 (c # u @ fence)) = last (c # u @ fence)"
    using len by (intro last_drop) simp
  then have "last (drop 3 (c # u @ fence)) = CHR 0x60" by (simp add: fence_def)
  ultimately have "\<not> list_all is_ws (drop 3 (c # u @ fence))"
    using not_ws_backtick by (metis last_in_set list_all_iff)
  with Cons show ?case by simp
qed

lemma sublist_trim: "sublist (trim s) s"
proof -
  have "sublist (rev (dropWhile is_ws (rev (dropWhile is_ws s)))) (dropWhile is_ws s)"
    by (simp add: sublist_rev_left)
  then show ?thesis
    unfolding trim_def using sublist_dropWhile sublist_order.order.trans by blast
qed

text \<open>What the cleanup leaves is one contiguous piece of the reply.\<close>

lemma sublist_cleanup: "sublist (cleanup text) text"
proof -
  have a: "sublist (trim (replace_trail (replace_lead p (trim text)))) text"
    if "prefix p (trim text)" for p
  proof -
    have "sublist (replace_lead p (trim text)) (trim text)"
      using suffix_replace_lead_at_start[OF that] by (rule suffix_imp_sublist)
    moreover have "sublist (replace_trail (replace_lead p (trim text))) (replace_lead p (trim text))"
      using prefix_replace_trail by (rule prefix_imp_sublist)
    ultimately show ?thesis
      by (meson sublist_trim sublist_order.order.trans)
  qed
  show ?thesis
    by (simp add: cleanup_def Let_def startsWith_def a sublist_trim)
qed

lemma trim_core:
  assumes "list_all is_ws a" "list_all is_ws b" "m \<noteq> []" "\<not> is_ws (hd m)" "\<not> is_ws (last m)"
  shows "trim (a @ m @ b) = m"
proof -
  have 1: "dropWhile is_ws (a @ m @ b) = m @ b"
    using assms(1,3,4) by (cases m) (simp_all add: dropWhile_append3 list_all_iff dropWhile_append)
  have 2: "dropWhile is_ws (rev b @ rev m) = rev m"
    using assms(2,3,5) by (cases "rev m") (simp_all add: dropWhile_append list_all_iff last_rev hd_rev)
  show ?thesis by (simp add: trim_def 1 2)
qed

lemma dropWhile_ws_lead:
  assumes "list_all is_ws w" "d \<noteq> []" "\<not> is_ws (hd d)"
  shows "dropWhile is_ws (w @ d @ rest) = d @ rest"
  using assms by (cases d) (simp_all add: dropWhile_append list_all_iff)

lemma trim_replace_trail_closing:
  assumes "list_all is_ws w2" "d \<noteq> []" "\<not> is_ws (hd d)" "\<not> is_ws (last d)"
  shows "trim (replace_trail (d @ w2 @ fence)) = d"
proof -
  have "replace_trail ((d @ w2) @ fence) = d @ w2"
    by (rule replace_trail_closing_fence)
  moreover have "trim ([] @ d @ w2) = d"
    using assms by (intro trim_core) simp_all
  ultimately show ?thesis by simp
qed

lemma prefix_before_foreign:
  assumes "prefix p (x @ y)" "y \<noteq> []" "hd y \<notin> set p"
  shows "prefix p x"
proof -
  from assms(1) consider "prefix p x" | us where "p = x @ us" "prefix us y"
    by (auto simp: prefix_append)
  then show ?thesis
  proof cases
    case 1
    then show ?thesis .
  next
    case 2
    show ?thesis
    proof (cases us)
      case Nil
      with 2 show ?thesis by simp
    next
      case (Cons u us')
      with 2(2) assms(2) have "hd y = u" by (cases y) auto
      with Cons 2(1) assms(3) show ?thesis by simp
    qed
  qed
qed

lemma hd_tail_not_in_json:
  assumes "list_all is_ws w2"
  shows "hd (w2 @ fence) \<notin> set ''json''"
proof (cases w2)
  case Nil
  then show ?thesis by (simp add: fence_def)
next
  case (Cons c cs)
  with assms have "is_ws c" by simp
  then have "c \<notin> set ''json''" by (auto simp: is_ws_def)
  with Cons show ?thesis by simp
qed

text \<open>
  A reply that is, between optional white space, an opening fence, the tag \<open>json\<close> or no
  tag, the data, and a closing fence, is cleaned to the data.
\<close>

lemma cleanup_fenced:
  assumes ws: "list_all is_ws a" "list_all is_ws b" "list_all is_ws w1" "list_all is_ws w2"
    and d: "d \<noteq> []" "\<not> is_ws (hd d)" "\<not> is_ws (last d)"
    and tag: "tag = ''json'' \<or> (tag = [] \<and> \<not> prefix ''json'' (w1 @ d))"
  shows "cleanup (a @ fence @ tag @ w1 @ d @ w2 @ fence @ b) = d"
proof -
  define m where "m = fence @ tag @ w1 @ d @ w2 @ fence"
  have m_ne: "m \<noteq> []" and m_hd: "\<not> is_ws (hd m)" and m_last: "\<not> is_ws (last m)"
    by (simp_all add: m_def fence_def is_ws_def)
  have "trim (a @ m @ b) = m"
    using ws(1,2) m_ne m_hd m_last by (rule trim_core)
  then have content: "trim (a @ fence @ tag @ w1 @ d @ w2 @ fence @ b) = m"
    by (simp add: m_def)
  have tail: "trim (replace_trail (d @ w2 @ fence)) = d"
    using ws(4) d by (rule trim_replace_trail_closing)
  have lead: "dropWhile is_ws (w1 @ d @ w2 @ fence) = d @ w2 @ fence"
    using ws(3) d(1,2) by (rule dropWhile_ws_lead)
  from tag show ?thesis
  proof
    assume t: "tag = ''json''"
    have p: "prefix (fence @ ''json'') m" by (simp add: m_def t)
    have "replace_lead (fence @ ''json'') m = d @ w2 @ fence"
      using lead by (simp add: replace_lead_at_start[OF p]) (simp add: m_def t fence_def)
    with p tail show ?thesis
      by (simp add: cleanup_def content startsWith_def)
  next
    assume t: "tag = [] \<and> \<not> prefix ''json'' (w1 @ d)"
    have "\<not> prefix ''json'' ((w1 @ d) @ (w2 @ fence))"
      using prefix_before_foreign[of "''json''" "w1 @ d" "w2 @ fence"] hd_tail_not_in_json[OF ws(4)] t
      by (auto simp: fence_def)
    then have np: "\<not> prefix (fence @ ''json'') m" by (simp add: m_def t)
    have p: "prefix fence m" by (simp add: m_def)
    have "replace_lead fence m = d @ w2 @ fence"
      using lead by (simp add: replace_lead_at_start[OF p]) (simp add: m_def t fence_def)
    with p np tail show ?thesis
      by (simp add: cleanup_def content startsWith_def)
  qed
qed

text \<open>
  C3, as the program has it. Take a reply that consists of an opening fence, a tag, the
  data and a closing fence, with any white space around the fences and around the data
  (the data itself without white space at its ends). If the tag is \<open>json\<close>, or there is
  no tag (and the text after the bare fence does not begin with \<open>json\<close>), and the decode
  accepts the data, then the cleanup yields the data, the decode of the cleaned text is
  accepted, and the payload is the decoded value; the fallback is not used. Another tag
  is not stripped: when the text after the fence does not begin with \<open>json\<close>, only the
  fence is removed and the cleaned text is the tag followed by the data; when the tag is
  \<open>json\<close> followed by more characters, the fence and \<open>json\<close> are removed and the
  cleaned text is the rest of the tag followed by the data. In both cases the payload is
  the fallback object whenever \<open>JSON.parse\<close> throws on the cleaned text.
\<close>

theorem fenced_json_accepted:
  assumes "list_all is_ws a" "list_all is_ws b" "list_all is_ws w1" "list_all is_ws w2"
    and "d \<noteq> []" "\<not> is_ws (hd d)" "\<not> is_ws (last d)"
  shows "((tag = ''json'' \<or> (tag = [] \<and> \<not> prefix ''json'' (w1 @ d)))
           \<and> decode parse d = Inr parsed \<longrightarrow>
          cleanup (a @ fence @ tag @ w1 @ d @ w2 @ fence @ b) = d
          \<and> decode parse (cleanup (a @ fence @ tag @ w1 @ d @ w2 @ fence @ b)) = Inr parsed
          \<and> normalize parse safeName safeUrl (a @ fence @ tag @ w1 @ d @ w2 @ fence @ b) = parsed)
    \<and> (tag \<noteq> [] \<and> \<not> is_ws (hd tag) \<and> \<not> prefix ''json'' (tag @ w1 @ d) \<longrightarrow>
          cleanup (a @ fence @ tag @ w1 @ d @ w2 @ fence @ b) = tag @ w1 @ d
          \<and> (parse (tag @ w1 @ d) = None \<longrightarrow>
                normalize parse safeName safeUrl (a @ fence @ tag @ w1 @ d @ w2 @ fence @ b)
                  = fallback safeName safeUrl (tag @ w1 @ d)))
    \<and> (rest \<noteq> [] \<and> \<not> is_ws (hd rest) \<longrightarrow>
          cleanup (a @ fence @ ''json'' @ rest @ w1 @ d @ w2 @ fence @ b) = rest @ w1 @ d
          \<and> (parse (rest @ w1 @ d) = None \<longrightarrow>
                normalize parse safeName safeUrl (a @ fence @ ''json'' @ rest @ w1 @ d @ w2 @ fence @ b)
                  = fallback safeName safeUrl (rest @ w1 @ d)))"
proof -
  have fb: "normalize parse safeName safeUrl t = fallback safeName safeUrl (cleanup t)"
    if "parse (cleanup t) = None" for t
    using that by (simp add: normalize_def decode_def)
  have p1: "cleanup (a @ fence @ tag @ w1 @ d @ w2 @ fence @ b) = d"
    if "tag = ''json'' \<or> (tag = [] \<and> \<not> prefix ''json'' (w1 @ d))"
    using assms that by (rule cleanup_fenced)
  have body: "x @ w1 @ d \<noteq> []" "\<not> is_ws (hd (x @ w1 @ d))" "\<not> is_ws (last (x @ w1 @ d))"
    if "x \<noteq> []" "\<not> is_ws (hd x)" for x
    using that assms(5,7) by simp_all
  have p2: "cleanup (a @ fence @ tag @ w1 @ d @ w2 @ fence @ b) = tag @ w1 @ d"
    if "tag \<noteq> []" "\<not> is_ws (hd tag)" "\<not> prefix ''json'' (tag @ w1 @ d)"
  proof -
    have "[] = ''json'' \<or> ([] = [] \<and> \<not> prefix ''json'' ([] @ (tag @ w1 @ d)))"
      using that(3) by simp
    from cleanup_fenced[of a b "[]" w2 "tag @ w1 @ d" "[]"] assms(1,2,4) body[OF that(1,2)] this
    show ?thesis by simp
  qed
  have p3: "cleanup (a @ fence @ ''json'' @ rest @ w1 @ d @ w2 @ fence @ b) = rest @ w1 @ d"
    if "rest \<noteq> []" "\<not> is_ws (hd rest)"
  proof -
    have "''json'' = ''json'' \<or> (''json'' = [] \<and> \<not> prefix ''json'' ([] @ (rest @ w1 @ d)))"
      by simp
    from cleanup_fenced[of a b "[]" w2 "rest @ w1 @ d" "''json''"] assms(1,2,4) body[OF that] this
    show ?thesis by simp
  qed
  have c1: "(tag = ''json'' \<or> (tag = [] \<and> \<not> prefix ''json'' (w1 @ d)))
           \<and> decode parse d = Inr parsed \<longrightarrow>
          cleanup (a @ fence @ tag @ w1 @ d @ w2 @ fence @ b) = d
          \<and> decode parse (cleanup (a @ fence @ tag @ w1 @ d @ w2 @ fence @ b)) = Inr parsed
          \<and> normalize parse safeName safeUrl (a @ fence @ tag @ w1 @ d @ w2 @ fence @ b) = parsed"
    using p1 by (simp add: normalize_def)
  have c2: "tag \<noteq> [] \<and> \<not> is_ws (hd tag) \<and> \<not> prefix ''json'' (tag @ w1 @ d) \<longrightarrow>
          cleanup (a @ fence @ tag @ w1 @ d @ w2 @ fence @ b) = tag @ w1 @ d
          \<and> (parse (tag @ w1 @ d) = None \<longrightarrow>
                normalize parse safeName safeUrl (a @ fence @ tag @ w1 @ d @ w2 @ fence @ b)
                  = fallback safeName safeUrl (tag @ w1 @ d))"
    using p2 fb[of "a @ fence @ tag @ w1 @ d @ w2 @ fence @ b"] by simp
  have c3: "rest \<noteq> [] \<and> \<not> is_ws (hd rest) \<longrightarrow>
          cleanup (a @ fence @ ''json'' @ rest @ w1 @ d @ w2 @ fence @ b) = rest @ w1 @ d
          \<and> (parse (rest @ w1 @ d) = None \<longrightarrow>
                normalize parse safeName safeUrl (a @ fence @ ''json'' @ rest @ w1 @ d @ w2 @ fence @ b)
                  = fallback safeName safeUrl (rest @ w1 @ d))"
    using p3 fb[of "a @ fence @ ''json'' @ rest @ w1 @ d @ w2 @ fence @ b"] by simp
  from c1 c2 c3 show ?thesis by (intro conjI)
qed

theorem fenced_json_accepted_witness:
  "normalize sample_parse ''Acme'' ''u''
     ('' '' @ fence @ ''json'' @ [CHR 0x0A] @ complete_text @ [CHR 0x0A] @ fence @ [CHR 0x0A])
     = complete_payload
   \<and> normalize sample_parse ''Acme'' ''u''
     ([] @ fence @ [] @ [CHR 0x0A] @ complete_text @ [] @ fence @ []) = complete_payload
   \<and> cleanup ([] @ fence @ ''js'' @ [CHR 0x0A] @ complete_text @ [CHR 0x0A] @ fence @ [])
       = ''js'' @ [CHR 0x0A] @ complete_text
   \<and> normalize sample_parse ''Acme'' ''u''
       ([] @ fence @ ''js'' @ [CHR 0x0A] @ complete_text @ [CHR 0x0A] @ fence @ [])
       = fallback ''Acme'' ''u'' (''js'' @ [CHR 0x0A] @ complete_text)
   \<and> cleanup ([] @ fence @ ''json'' @ ''5'' @ [CHR 0x0A] @ complete_text @ [CHR 0x0A] @ fence @ [])
       = ''5'' @ [CHR 0x0A] @ complete_text"
proof -
  have ws: "list_all is_ws '' ''" "list_all is_ws [CHR 0x0A]" "list_all is_ws []"
    by (simp_all add: is_ws_def)
  have d: "complete_text \<noteq> []" "\<not> is_ws (hd complete_text)" "\<not> is_ws (last complete_text)"
    by (simp_all add: complete_text_def is_ws_def)
  have ok: "decode sample_parse complete_text = Inr complete_payload"
    by code_simp
  have js: "''js'' \<noteq> [] \<and> \<not> is_ws (hd ''js'') \<and> \<not> prefix ''json'' (''js'' @ [CHR 0x0A] @ complete_text)"
    by (simp add: is_ws_def)
  have five: "''5'' \<noteq> [] \<and> \<not> is_ws (hd ''5'')"
    by (simp add: is_ws_def)
  have none: "sample_parse (''js'' @ [CHR 0x0A] @ complete_text) = None"
    by code_simp
  have np: "\<not> prefix ''json'' ([CHR 0x0A] @ complete_text)" by simp
  show ?thesis
    using fenced_json_accepted [OF ws(1) ws(2) ws(2) ws(2) d, of "''json''" sample_parse complete_payload "''Acme''" "''u''"]
      fenced_json_accepted [OF ws(3) ws(3) ws(2) ws(3) d, of "[]" sample_parse complete_payload "''Acme''" "''u''"]
      fenced_json_accepted [OF ws(3) ws(3) ws(2) ws(2) d, of "''js''" sample_parse _ "''Acme''" "''u''" "''5''"]
      ok js five none np
    by simp
qed

text \<open>
  The claim as written, for a fence with any language tag, fails: with the tag \<open>js\<close> the
  tag stays in front of the data, \<open>JSON.parse\<close> throws on it, and the payload is the
  fallback object although the enclosed data is accepted on its own.
\<close>

theorem fenced_other_tag_counterexample:
  "decode sample_parse complete_text = Inr complete_payload
   \<and> cleanup (fence @ ''js'' @ [CHR 0x0A] @ complete_text @ [CHR 0x0A] @ fence)
       = ''js'' @ [CHR 0x0A] @ complete_text
   \<and> decode sample_parse (cleanup (fence @ ''js'' @ [CHR 0x0A] @ complete_text @ [CHR 0x0A] @ fence))
       = Inl SyntaxError
   \<and> normalize sample_parse ''Acme'' ''u''
       (fence @ ''js'' @ [CHR 0x0A] @ complete_text @ [CHR 0x0A] @ fence) \<noteq> complete_payload"
  by code_simp

section \<open>The fallback payload\<close>

lemma replace_ws_no_ws: "list_all (\<lambda>c. \<not> is_ws c) (replace_ws s)"
  by (induction s rule: replace_ws.induct) (simp_all add: is_ws_def)

lemma set_replace_ws: "set (replace_ws s) \<subseteq> insert (CHR ''-'') (set s)"
proof (induction s rule: replace_ws.induct)
  case 1
  show ?case by simp
next
  case (2 c cs)
  have "set (dropWhile is_ws cs) \<subseteq> set cs" by (rule set_dropWhileD[THEN subsetI])
  with 2 show ?case by (auto split: if_splits)
qed

lemma lower_char_not_capital: "\<not> is_capital (lower_char c)"
proof -
  have "of_char c < (256::nat)" by simp
  then show ?thesis
    by (auto simp: is_capital_def lower_char_def Let_def)
qed

lemma slug_no_capital: "list_all (\<lambda>c. \<not> is_capital c) (replace_ws (toLowerCase s))"
proof -
  have "\<not> is_capital c" if "c \<in> set (replace_ws (toLowerCase s))" for c
  proof -
    from that set_replace_ws have "c = CHR ''-'' \<or> c \<in> set (toLowerCase s)" by auto
    then show ?thesis
      by (auto simp: toLowerCase_def lower_char_not_capital) (simp add: is_capital_def)
  qed
  then show ?thesis by (simp add: list_all_iff)
qed

lemma replace_ws_plain: "list_all (\<lambda>c. \<not> is_ws c) s \<Longrightarrow> replace_ws s = s"
  by (induction s) simp_all

lemma replace_ws_run:
  assumes "list_all (\<lambda>c. \<not> is_ws c) u" "w \<noteq> []" "list_all is_ws w" "v = [] \<or> \<not> is_ws (hd v)"
  shows "replace_ws (u @ w @ v) = u @ ''-'' @ replace_ws v"
  using assms(1)
proof (induction u)
  case Nil
  obtain c w' where w: "w = c # w'" using assms(2) by (cases w) auto
  have "dropWhile is_ws (w' @ v) = v"
    using assms(3,4) w by (cases v) (auto simp: dropWhile_append list_all_iff)
  with w assms(3) show ?case by simp
next
  case (Cons c u)
  then show ?case by simp
qed

text \<open>
  C1, as the program has it. Whenever the decode of the cleaned reply is not accepted,
  for whatever reason and whatever the reply, \<open>getAIAnalysis\<close> returns a payload: its
  name and website are the resolved name and URL; its slug is the resolved name in lower
  case with every run of white space replaced by one hyphen, so without white space and
  without capital letters; its description embeds the first 200 code units of the cleaned
  reply, a contiguous piece of the raw reply; \<open>features\<close>, \<open>integrations\<close>, \<open>useCases\<close>,
  \<open>pros\<close> and \<open>cons\<close> are empty lists, and \<open>categories\<close> is the one-element list
  \<open>AI Tools\<close>; all list-valued fields are there, and the invariant of an enriched record
  holds.
\<close>

theorem fallback_payload:
  assumes "decode parse (cleanup text) = Inl e"
  shows "\<exists>p excerpt.
      getAIAnalysis parse (Replied (Some text)) toolName givenUrl = Inr p
    \<and> getProp p ''name'' = Some (JStr (safeName_of toolName))
    \<and> getProp p ''website'' = Some (JStr (safeUrl_of givenUrl))
    \<and> getProp p ''slug'' = Some (JStr (replace_ws (toLowerCase (safeName_of toolName))))
    \<and> list_all (\<lambda>c. \<not> is_ws c \<and> \<not> is_capital c) (replace_ws (toLowerCase (safeName_of toolName)))
    \<and> getProp p ''description'' =
        Some (JStr (''AI tool analysis for '' @ safeName_of toolName @ ''. '' @ excerpt @ ''...''))
    \<and> excerpt = take 200 (cleanup text) \<and> length excerpt \<le> 200 \<and> sublist excerpt text
    \<and> getProp p ''categories'' = Some (JArr [JStr ''AI Tools''])
    \<and> getProp p ''features'' = Some (JArr [])
    \<and> getProp p ''integrations'' = Some (JArr [])
    \<and> getProp p ''prosCons'' = Some (JObj [(''pros'', JArr []), (''cons'', JArr [])])
    \<and> getProp p ''useCases'' = Some (JArr [])
    \<and> list_fields_present p
    \<and> enriched_invariant p"
proof -
  let ?p = "fallback (safeName_of toolName) (safeUrl_of givenUrl) (cleanup text)"
  have r: "getAIAnalysis parse (Replied (Some text)) toolName givenUrl = Inr ?p"
    using assms by (simp add: getAIAnalysis_def normalize_def)
  have slug: "list_all (\<lambda>c. \<not> is_ws c \<and> \<not> is_capital c) (replace_ws (toLowerCase (safeName_of toolName)))"
    using replace_ws_no_ws[of "toLowerCase (safeName_of toolName)"] slug_no_capital[of "safeName_of toolName"]
    by (simp add: list_all_iff)
  have ex: "sublist (take 200 (cleanup text)) text"
    using sublist_take sublist_cleanup sublist_order.order.trans by blast
  have f: "getProp ?p ''name'' = Some (JStr (safeName_of toolName))"
    "getProp ?p ''website'' = Some (JStr (safeUrl_of givenUrl))"
    "getProp ?p ''slug'' = Some (JStr (replace_ws (toLowerCase (safeName_of toolName))))"
    "getProp ?p ''description'' =
        Some (JStr (''AI tool analysis for '' @ safeName_of toolName @ ''. '' @ take 200 (cleanup text) @ ''...''))"
    "getProp ?p ''categories'' = Some (JArr [JStr ''AI Tools''])"
    "getProp ?p ''features'' = Some (JArr [])"
    "getProp ?p ''integrations'' = Some (JArr [])"
    "getProp ?p ''prosCons'' = Some (JObj [(''pros'', JArr []), (''cons'', JArr [])])"
    "getProp ?p ''useCases'' = Some (JArr [])"
    by (simp_all add: fallback_def substring0_def)
  have lp: "list_fields_present ?p"
    by (simp add: list_fields_present_def list_fields_def f)
  have inv: "enriched_invariant ?p"
    by (simp add: enriched_invariant_def f)
  show ?thesis
    using r slug ex f lp inv by (intro exI[of _ ?p] exI[of _ "take 200 (cleanup text)"]) simp
qed

theorem fallback_payload_witness:
  "decode sample_parse (cleanup []) = Inl SyntaxError
   \<and> decode sample_parse (cleanup ''Sorry, I cannot help.'') = Inl SyntaxError
   \<and> decode sample_parse (cleanup partial_text) = Inl InvalidStructure
   \<and> (\<exists>p. getAIAnalysis sample_parse (Replied (Some partial_text)) (Some ''Acme'') None = Inr p
          \<and> getProp p ''name'' = Some (JStr ''Acme'') \<and> enriched_invariant p)
   \<and> (\<exists>p. getAIAnalysis sample_parse (Replied (Some [])) None None = Inr p
          \<and> getProp p ''slug'' = Some (JStr ''unknown-tool'') \<and> enriched_invariant p)
   \<and> (\<exists>p. getAIAnalysis sample_parse (Replied (Some ''Sorry, I cannot help.'')) (Some ''My  Tool'') None = Inr p
          \<and> getProp p ''slug'' = Some (JStr ''my-tool'') \<and> enriched_invariant p)"
proof -
  have a: "decode sample_parse (cleanup []) = Inl SyntaxError" by code_simp
  have b: "decode sample_parse (cleanup ''Sorry, I cannot help.'') = Inl SyntaxError" by code_simp
  have b': "decode sample_parse (cleanup partial_text) = Inl InvalidStructure" by code_simp
  have c': "safeName_of (Some ''Acme'') = ''Acme''" by code_simp
  have c: "replace_ws (toLowerCase (safeName_of None)) = ''unknown-tool''" by code_simp
  have d: "replace_ws (toLowerCase (safeName_of (Some ''My  Tool''))) = ''my-tool''" by code_simp
  show ?thesis
    using fallback_payload [OF a, of None None] fallback_payload [OF b, of "Some ''My  Tool''" None]
      fallback_payload [OF b', of "Some ''Acme''" None] a b b'
    unfolding c d c' by blast
qed

text \<open>
  The claim as written has every list-valued field of the synthesized payload empty;
  \<open>categories\<close> is not.
\<close>

theorem list_fields_empty_counterexample:
  "decode sample_parse (cleanup []) = Inl SyntaxError
   \<and> getProp (normalize sample_parse ''Unknown Tool'' ''No URL provided'' []) ''categories''
       = Some (JArr [JStr ''AI Tools''])
   \<and> \<not> list_fields_empty (normalize sample_parse ''Unknown Tool'' ''No URL provided'' [])"
  by code_simp

section \<open>The raw collection\<close>

lemma map_oid_update_first: "keeps_oid f \<Longrightarrow> map oid (update_first i f coll) = map oid coll"
  by (induction coll) (simp_all add: keeps_oid_def)

lemma find_raw_update_first_same:
  "find_raw i (update_first i f coll) = map_option f (find_raw i coll)" if "keeps_oid f"
  using that by (induction coll) (simp_all add: find_raw_def keeps_oid_def)

lemma find_raw_update_first_other:
  "find_raw j (update_first i f coll) = find_raw j coll" if "keeps_oid f" "j \<noteq> i"
  using that by (induction coll) (simp_all add: find_raw_def keeps_oid_def)

lemma update_first_keeps_others:
  "r \<in> set coll \<Longrightarrow> oid r \<noteq> i \<Longrightarrow> r \<in> set (update_first i f coll)"
  by (induction coll) auto

lemma set_update_first:
  "x \<in> set (update_first i f coll) \<Longrightarrow> x \<in> set coll \<or> (\<exists>r \<in> set coll. oid r = i \<and> x = f r)"
  by (induction coll) (auto split: if_splits)

lemma find_raw_member:
  "distinct (map oid coll) \<Longrightarrow> r \<in> set coll \<Longrightarrow> find_raw (oid r) coll = Some r"
  by (induction coll) (auto simp: find_raw_def)

lemma find_raw_exists: "r \<in> set coll \<Longrightarrow> \<exists>r'. find_raw (oid r) coll = Some r'"
  by (induction coll) (auto simp: find_raw_def)

lemma keeps_oid_marks: "keeps_oid (mark_processed t)" "keeps_oid (mark_failed e t)"
  by (simp_all add: keeps_oid_def)

section \<open>One processing attempt\<close>

text \<open>The \<open>try\<close> block and the whole function, case by case.\<close>

lemma try_process_cases:
  "try_process parse env item st =
     (case getAIAnalysis parse (response env) (Some (toolName_of item)) (Some (appUrl_of item)) of
        Inl e \<Rightarrow> (Inl e, st)
      | Inr a \<Rightarrow>
          if missing_required a \<noteq> [] then (Inl (ValidationFailed (missing_required a)), st)
          else (case save_fault env of
                  Some msg \<Rightarrow> (Inl (SaveFailed msg), st)
                | None \<Rightarrow>
                   (case processed_update_fault env of
                      Some msg \<Rightarrow> (Inl (UpdateFailed msg), st\<lparr>tools := tools st @ [new_tool env item a]\<rparr>)
                    | None \<Rightarrow> (Inr (new_id env),
                         st\<lparr>tools := tools st @ [new_tool env item a],
                            raw_data := update_first (oid item) (mark_processed (now env)) (raw_data st)\<rparr>))))"
  by (simp add: try_process_def Let_def save_def updateOne_def new_tool_def
      split: sum.splits option.splits)

lemma processRawDataItem_cases:
  "processRawDataItem parse env item st =
     (case try_process parse env item st of
        (Inr p, st1) \<Rightarrow> (Inr (Success p (oid item)), st1)
      | (Inl e, st1) \<Rightarrow>
          (case failed_update_fault env of
             Some msg \<Rightarrow> (Inl (UpdateFailed msg), st1)
           | None \<Rightarrow> (Inr (Failure e (oid item)),
                st1\<lparr>raw_data := update_first (oid item) (mark_failed e (now env)) (raw_data st1)\<rparr>)))"
  by (simp add: processRawDataItem_def updateOne_def
      split: sum.splits option.splits prod.splits)

lemma try_process_raw:
  "try_process parse env item st = (Inl e, st1) \<Longrightarrow> raw_data st1 = raw_data st"
  by (auto simp: try_process_cases split: sum.splits option.splits if_splits)

lemma try_process_ok:
  "try_process parse env item st = (Inr p, st1) \<Longrightarrow>
     raw_data st1 = update_first (oid item) (mark_processed (now env)) (raw_data st)"
  by (auto simp: try_process_cases split: sum.splits option.splits if_splits)

lemma try_process_tools:
  "try_process parse env item st = (res, st1) \<Longrightarrow>
     tools st1 = tools st \<or> (\<exists>doc. tools st1 = tools st @ [doc] \<and> original_id doc = oid item)"
  by (auto simp: try_process_cases new_tool_def split: sum.splits option.splits if_splits)

text \<open>What one attempt does to the raw collection, by its outcome.\<close>

lemma attempt_outcomes:
  assumes "processRawDataItem parse env item st = (res, st')"
  shows "(\<exists>p. res = Inr (Success p (oid item))
            \<and> raw_data st' = update_first (oid item) (mark_processed (now env)) (raw_data st))
       \<or> (\<exists>e. res = Inr (Failure e (oid item)) \<and> failed_update_fault env = None
            \<and> raw_data st' = update_first (oid item) (mark_failed e (now env)) (raw_data st))
       \<or> (\<exists>msg. res = Inl (UpdateFailed msg) \<and> failed_update_fault env = Some msg
            \<and> raw_data st' = raw_data st)"
proof (cases "try_process parse env item st")
  case (Pair r st1)
  show ?thesis
  proof (cases r)
    case (Inl e)
    with Pair have "raw_data st1 = raw_data st" by (simp add: try_process_raw)
    with Pair Inl assms show ?thesis
      by (auto simp: processRawDataItem_cases split: option.splits)
  next
    case (Inr p)
    with Pair have "raw_data st1 = update_first (oid item) (mark_processed (now env)) (raw_data st)"
      by (simp add: try_process_ok)
    with Pair Inr assms show ?thesis
      by (auto simp: processRawDataItem_cases)
  qed
qed

lemma attempt_raw:
  assumes "processRawDataItem parse env item st = (res, st1)"
  shows "\<exists>f. keeps_oid f \<and> (\<forall>r. status (f r) = 1 \<or> status (f r) = - 1)
    \<and> (raw_data st1 = raw_data st \<or> raw_data st1 = update_first (oid item) f (raw_data st))"
  using attempt_outcomes[OF assms]
proof (elim disjE exE conjE)
  fix p assume "raw_data st1 = update_first (oid item) (mark_processed (now env)) (raw_data st)"
  then show ?thesis
    by (intro exI[of _ "mark_processed (now env)"]) (simp add: keeps_oid_def)
next
  fix e assume "raw_data st1 = update_first (oid item) (mark_failed e (now env)) (raw_data st)"
  then show ?thesis
    by (intro exI[of _ "mark_failed e (now env)"]) (simp add: keeps_oid_def)
next
  assume "raw_data st1 = raw_data st"
  then show ?thesis
    by (intro exI[of _ "mark_processed 0"]) (simp add: keeps_oid_def)
qed

lemma step_map_oid:
  "processRawDataItem parse env item st = (res, st1) \<Longrightarrow> map oid (raw_data st1) = map oid (raw_data st)"
  using attempt_raw map_oid_update_first by fastforce

lemma step_keeps:
  "processRawDataItem parse env item st = (res, st1) \<Longrightarrow> r \<in> set (raw_data st) \<Longrightarrow> oid r \<noteq> oid item
     \<Longrightarrow> r \<in> set (raw_data st1)"
  using attempt_raw update_first_keeps_others by fastforce

lemma step_new:
  assumes "processRawDataItem parse env item st = (res, st1)" "x \<in> set (raw_data st1)"
  shows "x \<in> set (raw_data st) \<or> status x = 1 \<or> status x = - 1"
proof -
  from attempt_raw[OF assms(1)] obtain f where f: "\<forall>r. status (f r) = 1 \<or> status (f r) = - 1"
    "raw_data st1 = raw_data st \<or> raw_data st1 = update_first (oid item) f (raw_data st)" by blast
  from f(2) show ?thesis
  proof
    assume "raw_data st1 = raw_data st"
    with assms(2) show ?thesis by simp
  next
    assume "raw_data st1 = update_first (oid item) f (raw_data st)"
    with assms(2) set_update_first[of x "oid item" f "raw_data st"] f(1) show ?thesis by auto
  qed
qed

lemma step_other:
  "processRawDataItem parse env item st = (res, st1) \<Longrightarrow> j \<noteq> oid item
     \<Longrightarrow> find_raw j (raw_data st1) = find_raw j (raw_data st)"
  using attempt_raw find_raw_update_first_other by fastforce

text \<open>
  C4, as the program has it. Take an attempt on a pending record in which the analysis is
  obtained, the tool document passes validation and is saved, and the update to status 1
  throws. The tool document stays in the result store, and the \<open>catch\<close> handler then
  writes status -1. If that write succeeds the attempt returns a failure result and the
  record is Failed (-1); the record remains Pending (0) exactly when that second write
  throws too, and then the exception leaves \<open>processRawDataItem\<close>.
\<close>

theorem status_update_failure:
  assumes "getAIAnalysis parse (response env) (Some (toolName_of item)) (Some (appUrl_of item)) = Inr a"
    and "missing_required a = []" and "save_fault env = None"
    and "processed_update_fault env = Some msg"
    and "find_raw (oid item) (raw_data st) = Some r" and "status r = 0"
  shows "\<exists>res st'. processRawDataItem parse env item st = (res, st')
    \<and> tools st' = tools st @ [new_tool env item a]
    \<and> (case failed_update_fault env of
          Some msg' \<Rightarrow> res = Inl (UpdateFailed msg') \<and> raw_data st' = raw_data st
            \<and> map_option status (find_raw (oid item) (raw_data st')) = Some 0
        | None \<Rightarrow> res = Inr (Failure (UpdateFailed msg) (oid item))
            \<and> find_raw (oid item) (raw_data st') = Some (mark_failed (UpdateFailed msg) (now env) r)
            \<and> map_option status (find_raw (oid item) (raw_data st')) = Some (- 1))"
proof -
  have t: "try_process parse env item st =
      (Inl (UpdateFailed msg), st\<lparr>tools := tools st @ [new_tool env item a]\<rparr>)"
    using assms(1-4) by (simp add: try_process_cases)
  show ?thesis
    using assms(5,6)
    by (simp add: processRawDataItem_cases t find_raw_update_first_same keeps_oid_marks
        split: option.splits)
qed

theorem status_update_failure_witness:
  "(\<exists>res st'. processRawDataItem sample_parse (timeout_env (Replied (Some complete_text)))
        (raw_item 1 ''Acme'' 0) (one_pending 1) = (res, st')
      \<and> res = Inr (Failure (UpdateFailed ''write timeout'') 1)
      \<and> map_option status (find_raw 1 (raw_data st')) = Some (- 1))
   \<and> (\<exists>res st'. processRawDataItem sample_parse (outage_env (Replied (Some complete_text)))
        (raw_item 1 ''Acme'' 0) (one_pending 1) = (res, st')
      \<and> res = Inl (UpdateFailed ''connection lost'')
      \<and> map_option status (find_raw 1 (raw_data st')) = Some 0)"
proof -
  have g: "getAIAnalysis sample_parse (response (timeout_env (Replied (Some complete_text))))
      (Some (toolName_of (raw_item 1 ''Acme'' 0))) (Some (appUrl_of (raw_item 1 ''Acme'' 0)))
      = Inr complete_payload"
    "getAIAnalysis sample_parse (response (outage_env (Replied (Some complete_text))))
      (Some (toolName_of (raw_item 1 ''Acme'' 0))) (Some (appUrl_of (raw_item 1 ''Acme'' 0)))
      = Inr complete_payload"
    by code_simp+
  have m: "missing_required complete_payload = []" by code_simp
  have s: "save_fault (timeout_env (Replied (Some complete_text))) = None"
    "save_fault (outage_env (Replied (Some complete_text))) = None"
    by (simp_all add: timeout_env_def outage_env_def calm_env_def)
  have u: "processed_update_fault (timeout_env (Replied (Some complete_text))) = Some ''write timeout''"
    "processed_update_fault (outage_env (Replied (Some complete_text))) = Some ''write timeout''"
    by (simp_all add: timeout_env_def outage_env_def calm_env_def)
  have f: "find_raw (oid (raw_item 1 ''Acme'' 0)) (raw_data (one_pending 1)) = Some (raw_item 1 ''Acme'' 0)"
    by (simp add: find_raw_def one_pending_def)
  have z: "status (raw_item 1 ''Acme'' 0) = 0" by (simp add: raw_item_def)
  have o: "oid (raw_item 1 ''Acme'' 0) = 1" by (simp add: raw_item_def)
  have ff: "failed_update_fault (timeout_env (Replied (Some complete_text))) = None"
    "failed_update_fault (outage_env (Replied (Some complete_text))) = Some ''connection lost''"
    by (simp_all add: timeout_env_def outage_env_def calm_env_def)
  show ?thesis
    using status_update_failure [OF g(1) m s(1) u(1) f z] status_update_failure [OF g(2) m s(2) u(2) f z]
    unfolding o ff by auto
qed

text \<open>
  The claim as written has the record remain Pending: here the tool is saved, the update
  to status 1 throws, and the record ends with status -1.
\<close>

theorem remains_pending_counterexample:
  "fst (processRawDataItem sample_parse (timeout_env (Replied (Some complete_text)))
          (raw_item 1 ''Acme'' 0) (one_pending 1))
     = Inr (Failure (UpdateFailed ''write timeout'') 1)
   \<and> map analysis (tools (snd (processRawDataItem sample_parse (timeout_env (Replied (Some complete_text)))
          (raw_item 1 ''Acme'' 0) (one_pending 1)))) = [complete_payload]
   \<and> map status (raw_data (snd (processRawDataItem sample_parse (timeout_env (Replied (Some complete_text)))
          (raw_item 1 ''Acme'' 0) (one_pending 1)))) = [- 1]"
  by code_simp

text \<open>
  C5, as the program has it. When the \<open>try\<close> block of an attempt throws and the write of
  the failure goes through, the attempt returns a failure result and the record has
  status -1 with \<open>error_message\<close> and \<open>error_at\<close> set. No tool document was stored by the
  attempt unless the exception is the one of the update to status 1, which comes after
  the save: then the Failed record has a tool document with its id as \<open>original_id\<close>.
\<close>

theorem failed_attempt:
  assumes "try_process parse env item st = (Inl e, st1)"
    and "failed_update_fault env = None"
    and "find_raw (oid item) (raw_data st) = Some r"
  shows "\<exists>st'. processRawDataItem parse env item st = (Inr (Failure e (oid item)), st')
    \<and> find_raw (oid item) (raw_data st') = Some (mark_failed e (now env) r)
    \<and> status (mark_failed e (now env) r) = - 1
    \<and> error_message (mark_failed e (now env) r) = Some e
    \<and> error_at (mark_failed e (now env) r) = Some (now env)
    \<and> ((\<forall>msg. e \<noteq> UpdateFailed msg) \<longrightarrow> tools st' = tools st)
    \<and> ((\<exists>msg. e = UpdateFailed msg) \<longrightarrow>
          (\<exists>doc. tools st' = tools st @ [doc] \<and> original_id doc = oid item))"
proof -
  have raw: "raw_data st1 = raw_data st"
    using assms(1) by (rule try_process_raw)
  have g: "\<And>x msg. getAIAnalysis parse (response env) x (Some (appUrl_of item)) \<noteq> Inl (UpdateFailed msg)"
    by (auto simp: getAIAnalysis_def split: completion.splits option.splits)
  have tl: "((\<forall>msg. e \<noteq> UpdateFailed msg) \<longrightarrow> tools st1 = tools st)
    \<and> ((\<exists>msg. e = UpdateFailed msg) \<longrightarrow>
          (\<exists>doc. tools st1 = tools st @ [doc] \<and> original_id doc = oid item))"
    using assms(1)
    by (auto simp: try_process_cases new_tool_def g split: sum.splits option.splits if_splits)
  show ?thesis
    using assms(2,3) tl
    by (simp add: processRawDataItem_cases assms(1) raw find_raw_update_first_same keeps_oid_marks)
qed

theorem failed_attempt_witness:
  "try_process sample_parse (calm_env (Threw ''quota exceeded'')) (raw_item 2 ''Acme'' 0) (one_pending 2)
     = (Inl (ApiError ''quota exceeded''), one_pending 2)
   \<and> (\<exists>st'. processRawDataItem sample_parse (calm_env (Threw ''quota exceeded''))
          (raw_item 2 ''Acme'' 0) (one_pending 2) = (Inr (Failure (ApiError ''quota exceeded'') 2), st')
        \<and> map_option status (find_raw 2 (raw_data st')) = Some (- 1)
        \<and> map_option error_message (find_raw 2 (raw_data st')) = Some (Some (ApiError ''quota exceeded''))
        \<and> tools st' = [])"
proof -
  have t: "try_process sample_parse (calm_env (Threw ''quota exceeded'')) (raw_item 2 ''Acme'' 0) (one_pending 2)
     = (Inl (ApiError ''quota exceeded''), one_pending 2)"
    by code_simp
  have n: "failed_update_fault (calm_env (Threw ''quota exceeded'')) = None"
    by (simp add: calm_env_def)
  have f: "find_raw (oid (raw_item 2 ''Acme'' 0)) (raw_data (one_pending 2)) = Some (raw_item 2 ''Acme'' 0)"
    by (simp add: find_raw_def one_pending_def)
  have o: "oid (raw_item 2 ''Acme'' 0) = 2" by (simp add: raw_item_def)
  have e: "tools (one_pending 2) = []" by (simp add: one_pending_def)
  show ?thesis
    using failed_attempt [OF t n f] t unfolding o e by auto
qed

text \<open>
  The claim as written has no enriched record for a failed attempt: here the attempt
  returns a failure, the record is Failed, and the result store holds the tool document
  of this attempt.
\<close>

theorem failed_with_enriched_counterexample:
  "processRawDataItem sample_parse (timeout_env (Replied (Some ''Sorry, I cannot help.'')))
      (raw_item 5 ''Acme'' 0) (one_pending 5)
   = (Inr (Failure (UpdateFailed ''write timeout'') 5),
      \<lparr>raw_data = [(raw_item 5 ''Acme'' 0)\<lparr>status := - 1,
                      error_message := Some (UpdateFailed ''write timeout''), error_at := Some 7\<rparr>],
       tools = [\<lparr>analysis = fallback ''Acme'' ''https://acme.test'' ''Sorry, I cannot help.'',
                  tool_logo_url = [], tool_status = 10, tool_processed_at = 7, original_id = 5,
                  tool_id = 100\<rparr>]\<rparr>)"
  by code_simp

text \<open>
  C10, as the program has it. The structural check of \<open>getAIAnalysis\<close> does not imply the
  required paths of the \<open>Tool\<close> schema, nor the converse: the sample reply without
  \<open>slug\<close>, \<open>website\<close>, \<open>tagline\<close>, \<open>company\<close> and \<open>longDescription\<close> is accepted, and
  the sample reply with the seven required strings and no lists is not. For every accepted
  payload with a required path missing, \<open>tool.save()\<close> throws the validation error,
  nothing is stored, and the record is never marked Processed. If the write of the failure
  succeeds, the attempt returns a failure result and the record is Failed (-1); if that
  write throws, the exception leaves the attempt and the record is left as it was.
\<close>

theorem schema_stricter_than_validation:
  assumes "response env = Replied (Some text)"
    and "decode parse (cleanup text) = Inr p" and "missing_required p \<noteq> []"
    and "find_raw (oid item) (raw_data st) = Some r"
  shows "decode sample_parse incomplete_text = Inr incomplete_payload
    \<and> missing_required incomplete_payload =
        [''slug'', ''website'', ''tagline'', ''company'', ''longDescription'']
    \<and> decode odd_parse strings_only_text = Inl InvalidStructure
    \<and> missing_required strings_only_payload = []
    \<and> try_process parse env item st = (Inl (ValidationFailed (missing_required p)), st)
    \<and> (\<exists>res st'. processRawDataItem parse env item st = (res, st')
          \<and> tools st' = tools st
          \<and> (case failed_update_fault env of
                None \<Rightarrow>
                  res = Inr (Failure (ValidationFailed (missing_required p)) (oid item))
                  \<and> find_raw (oid item) (raw_data st')
                       = Some (mark_failed (ValidationFailed (missing_required p)) (now env) r)
                  \<and> map_option status (find_raw (oid item) (raw_data st')) = Some (- 1)
              | Some msg \<Rightarrow>
                  res = Inl (UpdateFailed msg) \<and> raw_data st' = raw_data st
                  \<and> find_raw (oid item) (raw_data st') = Some r)
          \<and> (find_raw (oid item) (raw_data st') = Some r
               \<or> find_raw (oid item) (raw_data st')
                    = Some (mark_failed (ValidationFailed (missing_required p)) (now env) r))
          \<and> (\<forall>result. res = Inr result \<longrightarrow>
                result = Failure (ValidationFailed (missing_required p)) (oid item)
                \<and> find_raw (oid item) (raw_data st')
                     = Some (mark_failed (ValidationFailed (missing_required p)) (now env) r)
                \<and> status (mark_failed (ValidationFailed (missing_required p)) (now env) r) = - 1)
          \<and> ((\<exists>result. res = Inr result) \<longleftrightarrow> failed_update_fault env = None))"
proof -
  have a: "decode sample_parse incomplete_text = Inr incomplete_payload" by code_simp
  have b: "missing_required incomplete_payload =
        [''slug'', ''website'', ''tagline'', ''company'', ''longDescription'']" by code_simp
  have c: "decode odd_parse strings_only_text = Inl InvalidStructure" by code_simp
  have d: "missing_required strings_only_payload = []" by code_simp
  have g: "getAIAnalysis parse (response env) (Some (toolName_of item)) (Some (appUrl_of item)) = Inr p"
    using assms(1,2) by (simp add: getAIAnalysis_def normalize_def)
  have t: "try_process parse env item st = (Inl (ValidationFailed (missing_required p)), st)"
    using assms(3) by (simp add: try_process_cases g)
  let ?e = "ValidationFailed (missing_required p)"
  have attempt: "\<exists>res st'. processRawDataItem parse env item st = (res, st')
          \<and> tools st' = tools st
          \<and> (case failed_update_fault env of
                None \<Rightarrow>
                  res = Inr (Failure ?e (oid item))
                  \<and> find_raw (oid item) (raw_data st') = Some (mark_failed ?e (now env) r)
                  \<and> map_option status (find_raw (oid item) (raw_data st')) = Some (- 1)
              | Some msg \<Rightarrow>
                  res = Inl (UpdateFailed msg) \<and> raw_data st' = raw_data st
                  \<and> find_raw (oid item) (raw_data st') = Some r)
          \<and> (find_raw (oid item) (raw_data st') = Some r
               \<or> find_raw (oid item) (raw_data st') = Some (mark_failed ?e (now env) r))
          \<and> (\<forall>result. res = Inr result \<longrightarrow>
                result = Failure ?e (oid item)
                \<and> find_raw (oid item) (raw_data st') = Some (mark_failed ?e (now env) r)
                \<and> status (mark_failed ?e (now env) r) = - 1)
          \<and> ((\<exists>result. res = Inr result) \<longleftrightarrow> failed_update_fault env = None)"
  proof (cases "failed_update_fault env")
    case None
    have "processRawDataItem parse env item st =
        (Inr (Failure ?e (oid item)),
         st\<lparr>raw_data := update_first (oid item) (mark_failed ?e (now env)) (raw_data st)\<rparr>)"
      by (simp add: processRawDataItem_cases t None)
    moreover have "find_raw (oid item) (update_first (oid item) (mark_failed ?e (now env)) (raw_data st))
        = Some (mark_failed ?e (now env) r)"
      by (simp add: find_raw_update_first_same keeps_oid_marks assms(4))
    ultimately show ?thesis
      using None by simp
  next
    case (Some msg)
    have "processRawDataItem parse env item st = (Inl (UpdateFailed msg), st)"
      by (simp add: processRawDataItem_cases t Some)
    then show ?thesis
      using Some assms(4) by simp
  qed
  from a b c d t attempt show ?thesis by (intro conjI)
qed

theorem schema_stricter_than_validation_witness:
  "response (calm_env (Replied (Some incomplete_text))) = Replied (Some incomplete_text)
   \<and> response (lost_env (Replied (Some incomplete_text))) = Replied (Some incomplete_text)
   \<and> decode sample_parse (cleanup incomplete_text) = Inr incomplete_payload
   \<and> missing_required incomplete_payload \<noteq> []
   \<and> find_raw (oid (raw_item 1 ''Acme'' 0)) (raw_data (one_pending 1)) = Some (raw_item 1 ''Acme'' 0)
   \<and> try_process sample_parse (calm_env (Replied (Some incomplete_text))) (raw_item 1 ''Acme'' 0)
        (one_pending 1)
      = (Inl (ValidationFailed (missing_required incomplete_payload)), one_pending 1)
   \<and> (\<exists>st'. processRawDataItem sample_parse (calm_env (Replied (Some incomplete_text)))
          (raw_item 1 ''Acme'' 0) (one_pending 1)
        = (Inr (Failure (ValidationFailed (missing_required incomplete_payload)) 1), st')
        \<and> map_option status (find_raw 1 (raw_data st')) = Some (- 1))
   \<and> (\<exists>st'. processRawDataItem sample_parse (lost_env (Replied (Some incomplete_text)))
          (raw_item 1 ''Acme'' 0) (one_pending 1)
        = (Inl (UpdateFailed ''connection lost''), st')
        \<and> raw_data st' = raw_data (one_pending 1))"
proof -
  have a: "response (calm_env (Replied (Some incomplete_text))) = Replied (Some incomplete_text)"
    by (simp add: calm_env_def)
  have a': "response (lost_env (Replied (Some incomplete_text))) = Replied (Some incomplete_text)"
    by (simp add: calm_env_def lost_env_def)
  have b: "decode sample_parse (cleanup incomplete_text) = Inr incomplete_payload" by code_simp
  have c: "missing_required incomplete_payload \<noteq> []" by code_simp
  have d: "find_raw (oid (raw_item 1 ''Acme'' 0)) (raw_data (one_pending 1)) = Some (raw_item 1 ''Acme'' 0)"
    by (simp add: find_raw_def one_pending_def)
  have o: "oid (raw_item 1 ''Acme'' 0) = 1" by (simp add: raw_item_def)
  have f: "failed_update_fault (calm_env (Replied (Some incomplete_text))) = None"
    "failed_update_fault (lost_env (Replied (Some incomplete_text))) = Some ''connection lost''"
    by (simp_all add: calm_env_def lost_env_def)
  have x: "try_process sample_parse (calm_env (Replied (Some incomplete_text))) (raw_item 1 ''Acme'' 0)
        (one_pending 1)
      = (Inl (ValidationFailed (missing_required incomplete_payload)), one_pending 1)"
    using schema_stricter_than_validation [OF a b c d] by blast
  have y: "\<exists>st'. processRawDataItem sample_parse (calm_env (Replied (Some incomplete_text)))
          (raw_item 1 ''Acme'' 0) (one_pending 1)
        = (Inr (Failure (ValidationFailed (missing_required incomplete_payload)) 1), st')
        \<and> map_option status (find_raw 1 (raw_data st')) = Some (- 1)"
    using schema_stricter_than_validation [OF a b c d] unfolding o f by (elim conjE exE) simp
  have z: "\<exists>st'. processRawDataItem sample_parse (lost_env (Replied (Some incomplete_text)))
          (raw_item 1 ''Acme'' 0) (one_pending 1)
        = (Inl (UpdateFailed ''connection lost''), st')
        \<and> raw_data st' = raw_data (one_pending 1)"
    using schema_stricter_than_validation [OF a' b c d] unfolding o f by (elim conjE exE) simp
  show ?thesis
    using a a' b c d x y z by (intro conjI)
qed

text \<open>
  The claim as written has the record marked Failed for every such payload: here the reply
  is accepted without a \<open>slug\<close>, the save is rejected, the write of the failure throws,
  and the record still has status 0.
\<close>

theorem marked_failed_counterexample:
  "decode sample_parse (cleanup incomplete_text) = Inr incomplete_payload
   \<and> missing_required incomplete_payload =
        [''slug'', ''website'', ''tagline'', ''company'', ''longDescription'']
   \<and> processRawDataItem sample_parse (lost_env (Replied (Some incomplete_text)))
        (raw_item 1 ''Acme'' 0) (one_pending 1)
      = (Inl (UpdateFailed ''connection lost''), one_pending 1)
   \<and> map status (raw_data (one_pending 1)) = [0]"
  by code_simp

section \<open>The single-item trigger\<close>




section \<open>Batches\<close>

text \<open>The loop touches the records of its items only, and writes status 1 or -1 only.\<close>

lemma loop_frame:
  assumes "process_loop parse envs items rs st = (res, st')"
  shows "map oid (raw_data st') = map oid (raw_data st)
    \<and> (\<forall>r\<in>set (raw_data st). oid r \<notin> oid ` set items \<longrightarrow> r \<in> set (raw_data st'))
    \<and> (\<forall>j. j \<notin> oid ` set items \<longrightarrow> find_raw j (raw_data st') = find_raw j (raw_data st))
    \<and> (\<forall>x\<in>set (raw_data st'). x \<in> set (raw_data st) \<or> status x = 1 \<or> status x = - 1)"
  using assms
proof (induction items arbitrary: rs st)
  case Nil
  then show ?case by simp
next
  case (Cons item items)
  obtain r1 st1 where step: "processRawDataItem parse (envs (oid item)) item st = (r1, st1)"
    by (cases "processRawDataItem parse (envs (oid item)) item st") auto
  note m = step_map_oid[OF step] and k = step_keeps[OF step] and n = step_new[OF step]
    and o = step_other[OF step]
  show ?case
  proof (cases r1)
    case (Inl t)
    with Cons.prems step have "st' = st1" by simp
    with m k n o show ?thesis by auto
  next
    case (Inr result)
    with Cons.prems step have "process_loop parse envs items (rs @ [result]) st1 = (res, st')" by simp
    from Cons.IH[OF this] m k n o show ?thesis by (auto; metis)
  qed
qed

lemma loop_accumulates:
  "process_loop parse envs items rs st =
     (case process_loop parse envs items [] st of
        (Inl t, s) \<Rightarrow> (Inl t, s)
      | (Inr new, s) \<Rightarrow> (Inr (rs @ new), s))"
proof (induction items arbitrary: rs st)
  case Nil
  show ?case by simp
next
  case (Cons item items)
  show ?case
  proof (cases "processRawDataItem parse (envs (oid item)) item st")
    case (Pair r1 st1)
    show ?thesis
    proof (cases r1)
      case (Inl t)
      with Pair show ?thesis by simp
    next
      case (Inr result)
      have a: "process_loop parse envs items (rs @ [result]) st1 =
        (case process_loop parse envs items [] st1 of
           (Inl t, s) \<Rightarrow> (Inl t, s) | (Inr new, s) \<Rightarrow> (Inr ((rs @ [result]) @ new), s))"
        by (rule Cons.IH)
      have b: "process_loop parse envs items [result] st1 =
        (case process_loop parse envs items [] st1 of
           (Inl t, s) \<Rightarrow> (Inl t, s) | (Inr new, s) \<Rightarrow> (Inr ([result] @ new), s))"
        by (rule Cons.IH)
      show ?thesis
        using Pair Inr by (simp add: a b split: prod.splits sum.splits)
    qed
  qed
qed

text \<open>The loop of \<open>autoProcessPendingData\<close> counts what the loop of the route collects.\<close>

lemma auto_loop_counts:
  "auto_loop parse envs items p f st =
     (case process_loop parse envs items [] st of
        (Inl t, s) \<Rightarrow> (Inl t, s)
      | (Inr results, s) \<Rightarrow>
          (Inr (p + length (filter success results),
                f + length (filter (\<lambda>r. \<not> success r) results)), s))"
proof (induction items arbitrary: p f st)
  case Nil
  show ?case by simp
next
  case (Cons item items)
  show ?case
  proof (cases "processRawDataItem parse (envs (oid item)) item st")
    case (Pair r1 st1)
    show ?thesis
    proof (cases r1)
      case (Inl t)
      with Pair show ?thesis by simp
    next
      case (Inr result)
      show ?thesis
        using Pair Inr
        by (simp add: Cons.IH loop_accumulates[of parse envs items "[result]"]
            split: prod.splits sum.splits)
    qed
  qed
qed

lemma loop_completes:
  assumes "distinct (map oid items)"
    and "\<forall>r\<in>set items. failed_update_fault (envs (oid r)) = None"
    and "\<forall>r\<in>set items. find_raw (oid r) (raw_data st) \<noteq> None"
  shows "\<exists>results st'. process_loop parse envs items [] st = (Inr results, st')
    \<and> map originalId results = map oid items
    \<and> (\<forall>res\<in>set results.
          map_option status (find_raw (originalId res) (raw_data st'))
            = Some (if success res then 1 else - 1))"
  using assms
proof (induction items arbitrary: st)
  case Nil
  show ?case by simp
next
  case (Cons item items)
  obtain r1 st1 where step: "processRawDataItem parse (envs (oid item)) item st = (r1, st1)"
    by (cases "processRawDataItem parse (envs (oid item)) item st") auto
  from Cons.prems(3) obtain r where r: "find_raw (oid item) (raw_data st) = Some r" by auto
  from Cons.prems(2) have nofault: "failed_update_fault (envs (oid item)) = None" by simp
  from attempt_outcomes[OF step] nofault r
  obtain result where res: "r1 = Inr result" "originalId result = oid item"
    "map_option status (find_raw (oid item) (raw_data st1)) = Some (if success result then 1 else - 1)"
    by (auto simp: find_raw_update_first_same keeps_oid_def)
  have others: "\<forall>x\<in>set items. find_raw (oid x) (raw_data st1) \<noteq> None"
  proof
    fix x assume x: "x \<in> set items"
    with Cons.prems(1) have "oid x \<noteq> oid item" by (auto simp: image_iff)
    from step_other[OF step this] Cons.prems(3) x show "find_raw (oid x) (raw_data st1) \<noteq> None"
      by simp
  qed
  from Cons.prems(1,2) have "distinct (map oid items)"
    "\<forall>r\<in>set items. failed_update_fault (envs (oid r)) = None" by simp_all
  from Cons.IH[OF this others] obtain results st' where
    ih: "process_loop parse envs items [] st1 = (Inr results, st')"
      "map originalId results = map oid items"
      "\<forall>res\<in>set results.
          map_option status (find_raw (originalId res) (raw_data st'))
            = Some (if success res then 1 else - 1)"
    by blast
  have run: "process_loop parse envs (item # items) [] st = (Inr (result # results), st')"
    using step res(1) ih(1) by (simp add: loop_accumulates[of parse envs items "[result]"])
  from Cons.prems(1) have "oid item \<notin> oid ` set items" by auto
  with loop_frame[OF ih(1)] have "find_raw (oid item) (raw_data st') = find_raw (oid item) (raw_data st1)"
    by blast
  with res ih(2,3) run show ?case by simp
qed

lemma pending_facts:
  assumes "distinct (map oid coll)"
  shows "distinct (map oid (filter (\<lambda>r. status r = 0) coll))"
    and "\<forall>r\<in>set (filter (\<lambda>r. status r = 0) coll). find_raw (oid r) coll \<noteq> None"
  using assms find_raw_exists by (auto simp: distinct_map_filter)

text \<open>Whether the \<open>try\<close> block throws, and with what, does not depend on the store.\<close>

lemma try_process_outcome_store_free:
  "fst (try_process parse env item st) = Inl e \<Longrightarrow> fst (try_process parse env item st0) = Inl e"
  by (auto simp: try_process_cases split: sum.splits option.splits if_splits)

lemma attempt_tools:
  assumes "processRawDataItem parse env item st = (res, st1)"
  shows "tools st1 = tools st \<or> (\<exists>doc. tools st1 = tools st @ [doc] \<and> original_id doc = oid item)"
proof (cases "try_process parse env item st")
  case (Pair r s)
  from try_process_tools[OF Pair] assms Pair show ?thesis
    by (auto simp: processRawDataItem_cases split: sum.splits option.splits)
qed

text \<open>Every tool document the loop adds carries the id of one of its items.\<close>

lemma loop_tools:
  assumes "process_loop parse envs items rs st = (res, st')"
  shows "\<forall>doc\<in>set (tools st'). doc \<in> set (tools st) \<or> original_id doc \<in> oid ` set items"
  using assms
proof (induction items arbitrary: rs st)
  case Nil
  then show ?case by simp
next
  case (Cons item items)
  obtain r1 st1 where step: "processRawDataItem parse (envs (oid item)) item st = (r1, st1)"
    by (cases "processRawDataItem parse (envs (oid item)) item st") auto
  have t: "\<forall>doc\<in>set (tools st1). doc \<in> set (tools st) \<or> original_id doc = oid item"
    using attempt_tools[OF step] by auto
  show ?case
  proof (cases r1)
    case (Inl thrown)
    with Cons.prems step have "st' = st1" by simp
    with t show ?thesis by auto
  next
    case (Inr result)
    with Cons.prems step have "process_loop parse envs items (rs @ [result]) st1 = (res, st')" by simp
    from Cons.IH[OF this] t show ?thesis by auto
  qed
qed

lemma loop_append:
  "process_loop parse envs (xs @ ys) rs st =
     (case process_loop parse envs xs rs st of
        (Inl thrown, s) \<Rightarrow> (Inl thrown, s)
      | (Inr results, s) \<Rightarrow> process_loop parse envs ys results s)"
  by (induction xs arbitrary: rs st) (auto split: prod.splits sum.splits)

text \<open>
  When the attempts before an item return, the try block of the item throws and the write
  of its failure throws, the loop ends there with that exception, whatever follows the item.
\<close>

lemma loop_aborts:
  assumes "distinct (map oid (pre @ item # post))"
    and "\<forall>r\<in>set pre. failed_update_fault (envs (oid r)) = None"
    and "\<forall>r\<in>set (pre @ item # post). find_raw (oid r) (raw_data st) \<noteq> None"
    and "fst (try_process parse (envs (oid item)) item st) = Inl e"
    and "failed_update_fault (envs (oid item)) = Some msg"
  shows "\<exists>st'. process_loop parse envs (pre @ item # post) [] st = (Inl (UpdateFailed msg), st')
    \<and> process_loop parse envs (pre @ [item]) [] st = (Inl (UpdateFailed msg), st')
    \<and> (\<forall>r\<in>set (item # post). find_raw (oid r) (raw_data st') = find_raw (oid r) (raw_data st))
    \<and> (\<forall>doc\<in>set (tools st'). doc \<in> set (tools st) \<or> original_id doc \<in> oid ` set (pre @ [item]))"
proof -
  from assms(1) have dpre: "distinct (map oid pre)" by simp
  from assms(3) have epre: "\<forall>r\<in>set pre. find_raw (oid r) (raw_data st) \<noteq> None" by simp
  from loop_completes[OF dpre assms(2) epre, of parse] obtain results st1 where
    pre: "process_loop parse envs pre [] st = (Inr results, st1)" by blast
  obtain r2 st2 where t: "try_process parse (envs (oid item)) item st1 = (r2, st2)"
    by (cases "try_process parse (envs (oid item)) item st1") auto
  from try_process_outcome_store_free[OF assms(4), of st1] t have r2: "r2 = Inl e" by simp
  have raw2: "raw_data st2 = raw_data st1"
    using t r2 try_process_raw by blast
  have step: "processRawDataItem parse (envs (oid item)) item st1 = (Inl (UpdateFailed msg), st2)"
    using t r2 assms(5) by (simp add: processRawDataItem_cases)
  have full: "process_loop parse envs (pre @ item # post) [] st = (Inl (UpdateFailed msg), st2)"
    using pre step by (simp add: loop_append)
  have short: "process_loop parse envs (pre @ [item]) [] st = (Inl (UpdateFailed msg), st2)"
    using pre step by (simp add: loop_append)
  have untouched: "find_raw (oid r) (raw_data st2) = find_raw (oid r) (raw_data st)"
    if "r \<in> set (item # post)" for r
  proof -
    from that assms(1) have "oid r \<notin> oid ` set pre" by auto
    with loop_frame[OF pre] raw2 show ?thesis by simp
  qed
  from full short untouched loop_tools[OF short] show ?thesis by blast
qed

text \<open>
  C6, as the program has it. Take a store with distinct ids and its pending records in
  store order. If there is at least one and no write of a failure throws, the route and
  \<open>autoProcessPendingData\<close> attempt every selected record in order, the counts
  \<open>processed\<close> and \<open>failed\<close> add up to the number of selected records, and each selected
  record ends with status 1 if its attempt succeeded and -1 if it failed. If instead,
  the writes of failures before it not throwing, the \<open>try\<close> block of some selected
  record throws and the write of its failure throws, then that exception leaves
  \<open>processRawDataItem\<close> and the loop: the route answers with the server error,
  \<open>autoProcessPendingData\<close> logs no summary, the run is the run on the records up to
  that one, that record and those after it are left as they were, and no tool document is
  stored for the records after it.
\<close>

theorem batch_completes:
  assumes "distinct (map oid (raw_data st))"
    and "pending = filter (\<lambda>r. status r = 0) (raw_data st)"
  shows "(pending \<noteq> [] \<and> (\<forall>r\<in>set pending. failed_update_fault (envs (oid r)) = None) \<longrightarrow>
      (\<exists>results st'.
          process_raw_data parse None envs st =
            (Completed (length (filter success results)) (length (filter (\<lambda>r. \<not> success r) results))
               results, st')
        \<and> autoProcessPendingData parse None None envs st =
            (Some (length (filter success results), length (filter (\<lambda>r. \<not> success r) results)), st')
        \<and> map originalId results = map oid pending
        \<and> length (filter success results) + length (filter (\<lambda>r. \<not> success r) results) = length pending
        \<and> (\<forall>res\<in>set results.
              map_option status (find_raw (originalId res) (raw_data st'))
                = Some (if success res then 1 else - 1))))
    \<and> (pending = pre @ item # post
        \<and> (\<forall>r\<in>set pre. failed_update_fault (envs (oid r)) = None)
        \<and> fst (try_process parse (envs (oid item)) item st) = Inl e
        \<and> failed_update_fault (envs (oid item)) = Some msg \<longrightarrow>
      (\<exists>st'.
          process_raw_data parse None envs st = (ServerError (UpdateFailed msg), st')
        \<and> autoProcessPendingData parse None None envs st = (None, st')
        \<and> process_loop parse envs (pre @ [item]) [] st = (Inl (UpdateFailed msg), st')
        \<and> (\<forall>r\<in>set (item # post). find_raw (oid r) (raw_data st') = find_raw (oid r) (raw_data st))
        \<and> (\<forall>doc\<in>set (tools st').
              doc \<in> set (tools st) \<or> original_id doc \<in> oid ` set (pre @ [item]))))"
proof -
  from pending_facts[OF assms(1)] assms(2)
  have d: "distinct (map oid pending)" and e: "\<forall>r\<in>set pending. find_raw (oid r) (raw_data st) \<noteq> None"
    by simp_all
  have A: "\<exists>results st'.
          process_raw_data parse None envs st =
            (Completed (length (filter success results)) (length (filter (\<lambda>r. \<not> success r) results))
               results, st')
        \<and> autoProcessPendingData parse None None envs st =
            (Some (length (filter success results), length (filter (\<lambda>r. \<not> success r) results)), st')
        \<and> map originalId results = map oid pending
        \<and> length (filter success results) + length (filter (\<lambda>r. \<not> success r) results) = length pending
        \<and> (\<forall>res\<in>set results.
              map_option status (find_raw (originalId res) (raw_data st'))
                = Some (if success res then 1 else - 1))"
    if ne: "pending \<noteq> []" and nf: "\<forall>r\<in>set pending. failed_update_fault (envs (oid r)) = None"
  proof -
    from loop_completes[OF d nf e, of parse] obtain results st' where
      l: "process_loop parse envs pending [] st = (Inr results, st')"
         "map originalId results = map oid pending"
         "\<forall>res\<in>set results.
            map_option status (find_raw (originalId res) (raw_data st'))
              = Some (if success res then 1 else - 1)"
      by blast
    from l(2) have len: "length results = length pending"
      by (metis length_map)
    have sum: "length (filter success results) + length (filter (\<lambda>r. \<not> success r) results) = length pending"
      using len sum_length_filter_compl[of success results] by simp
    have route: "process_raw_data parse None envs st =
          (Completed (length (filter success results)) (length (filter (\<lambda>r. \<not> success r) results))
             results, st')"
      using assms(2) ne l(1) by (simp add: process_raw_data_def find_pending_def)
    have auto: "autoProcessPendingData parse None None envs st =
          (Some (length (filter success results), length (filter (\<lambda>r. \<not> success r) results)), st')"
      using assms(2) ne l(1)
      by (simp add: autoProcessPendingData_def find_pending_def auto_loop_counts Let_def)
    show ?thesis
      using route auto l(2,3) sum by blast
  qed
  have B: "\<exists>st'.
          process_raw_data parse None envs st = (ServerError (UpdateFailed msg), st')
        \<and> autoProcessPendingData parse None None envs st = (None, st')
        \<and> process_loop parse envs (pre @ [item]) [] st = (Inl (UpdateFailed msg), st')
        \<and> (\<forall>r\<in>set (item # post). find_raw (oid r) (raw_data st') = find_raw (oid r) (raw_data st))
        \<and> (\<forall>doc\<in>set (tools st').
              doc \<in> set (tools st) \<or> original_id doc \<in> oid ` set (pre @ [item]))"
    if p: "pending = pre @ item # post"
      and nf: "\<forall>r\<in>set pre. failed_update_fault (envs (oid r)) = None"
      and th: "fst (try_process parse (envs (oid item)) item st) = Inl e"
      and ff: "failed_update_fault (envs (oid item)) = Some msg"
  proof -
    from d e p have d': "distinct (map oid (pre @ item # post))"
      and e': "\<forall>r\<in>set (pre @ item # post). find_raw (oid r) (raw_data st) \<noteq> None" by simp_all
    from loop_aborts[OF d' nf e' th ff] obtain st' where
      l: "process_loop parse envs (pre @ item # post) [] st = (Inl (UpdateFailed msg), st')"
         "process_loop parse envs (pre @ [item]) [] st = (Inl (UpdateFailed msg), st')"
         "\<forall>r\<in>set (item # post). find_raw (oid r) (raw_data st') = find_raw (oid r) (raw_data st)"
         "\<forall>doc\<in>set (tools st'). doc \<in> set (tools st) \<or> original_id doc \<in> oid ` set (pre @ [item])"
      by blast
    have ne: "pending \<noteq> []" using p by simp
    have route: "process_raw_data parse None envs st = (ServerError (UpdateFailed msg), st')"
      using assms(2) ne l(1) p by (simp add: process_raw_data_def find_pending_def)
    have auto: "autoProcessPendingData parse None None envs st = (None, st')"
      using assms(2) ne l(1) p
      by (simp add: autoProcessPendingData_def find_pending_def auto_loop_counts Let_def)
    show ?thesis using route auto l(2,3,4) by blast
  qed
  show ?thesis using A B by blast
qed

theorem batch_completes_witness:
  "distinct (map oid (raw_data scenario_store))
   \<and> filter (\<lambda>r. status r = 0) (raw_data scenario_store) \<noteq> []
   \<and> list_all (\<lambda>r. failed_update_fault (scenario_envs (oid r)) = None)
         (filter (\<lambda>r. status r = 0) (raw_data scenario_store))
   \<and> (\<exists>results st'.
        process_raw_data sample_parse None scenario_envs scenario_store =
          (Completed (length (filter success results)) (length (filter (\<lambda>r. \<not> success r) results))
             results, st')
        \<and> length (filter success results) + length (filter (\<lambda>r. \<not> success r) results) = 3)
   \<and> fst (process_raw_data sample_parse None scenario_envs scenario_store) =
        Completed 2 1 [Success 101 1, Failure (ApiError ''quota exceeded'') 2, Success 103 3]
   \<and> map status (raw_data (snd (process_raw_data sample_parse None scenario_envs scenario_store)))
        = [1, - 1, 1, 1]
   \<and> distinct (map oid (raw_data two_pending))
   \<and> filter (\<lambda>r. status r = 0) (raw_data two_pending)
        = [] @ raw_item 1 ''Acme'' 0 # [raw_item 2 ''Beta'' 0]
   \<and> fst (try_process sample_parse (outage_envs (oid (raw_item 1 ''Acme'' 0))) (raw_item 1 ''Acme'' 0)
            two_pending) = Inl (ApiError ''quota exceeded'')
   \<and> failed_update_fault (outage_envs (oid (raw_item 1 ''Acme'' 0))) = Some ''connection lost''
   \<and> fst (process_raw_data sample_parse None outage_envs two_pending)
        = ServerError (UpdateFailed ''connection lost'')
   \<and> find_raw 2 (raw_data (snd (process_raw_data sample_parse None outage_envs two_pending)))
        = Some (raw_item 2 ''Beta'' 0)"
proof -
  have a: "distinct (map oid (raw_data scenario_store))" by code_simp
  have b: "filter (\<lambda>r. status r = 0) (raw_data scenario_store) \<noteq> []" by code_simp
  have c: "\<forall>r\<in>set (filter (\<lambda>r. status r = 0) (raw_data scenario_store)).
         failed_update_fault (scenario_envs (oid r)) = None"
    by (simp add: scenario_envs_def calm_env_def)
  have c': "list_all (\<lambda>r. failed_update_fault (scenario_envs (oid r)) = None)
         (filter (\<lambda>r. status r = 0) (raw_data scenario_store))"
    using c by (simp add: list_all_iff)
  have n: "length (filter (\<lambda>r. status r = 0) (raw_data scenario_store)) = 3" by code_simp
  have v: "fst (process_raw_data sample_parse None scenario_envs scenario_store) =
        Completed 2 1 [Success 101 1, Failure (ApiError ''quota exceeded'') 2, Success 103 3]"
    by code_simp
  have w: "map status (raw_data (snd (process_raw_data sample_parse None scenario_envs scenario_store)))
        = [1, - 1, 1, 1]"
    by code_simp
  have first: "\<exists>results st'.
        process_raw_data sample_parse None scenario_envs scenario_store =
          (Completed (length (filter success results)) (length (filter (\<lambda>r. \<not> success r) results))
             results, st')
        \<and> length (filter success results) + length (filter (\<lambda>r. \<not> success r) results) = 3"
    using batch_completes [OF a refl, of scenario_envs sample_parse] b c unfolding n by blast
  have a2: "distinct (map oid (raw_data two_pending))" by code_simp
  have p2: "filter (\<lambda>r. status r = 0) (raw_data two_pending)
        = [] @ raw_item 1 ''Acme'' 0 # [raw_item 2 ''Beta'' 0]" by code_simp
  have nf2: "\<forall>r\<in>set []. failed_update_fault (outage_envs (oid r)) = None" by simp
  have t2: "fst (try_process sample_parse (outage_envs (oid (raw_item 1 ''Acme'' 0))) (raw_item 1 ''Acme'' 0)
            two_pending) = Inl (ApiError ''quota exceeded'')" by code_simp
  have f2: "failed_update_fault (outage_envs (oid (raw_item 1 ''Acme'' 0))) = Some ''connection lost''"
    by code_simp
  have o2: "oid (raw_item 2 ''Beta'' 0) = 2" by (simp add: raw_item_def)
  have r2: "find_raw 2 (raw_data two_pending) = Some (raw_item 2 ''Beta'' 0)" by code_simp
  from batch_completes [OF a2 refl, where envs = outage_envs and parse = sample_parse
      and pre = "[]" and item = "raw_item 1 ''Acme'' 0" and post = "[raw_item 2 ''Beta'' 0]"
      and e = "ApiError ''quota exceeded''" and msg = "''connection lost''"] p2 nf2 t2 f2
  obtain st' where s:
    "process_raw_data sample_parse None outage_envs two_pending
       = (ServerError (UpdateFailed ''connection lost''), st')"
    "\<forall>r\<in>set (raw_item 1 ''Acme'' 0 # [raw_item 2 ''Beta'' 0]).
        find_raw (oid r) (raw_data st') = find_raw (oid r) (raw_data two_pending)"
    by blast
  from s(2) o2 r2 have "find_raw 2 (raw_data st') = Some (raw_item 2 ''Beta'' 0)" by simp
  with s(1) have second: "fst (process_raw_data sample_parse None outage_envs two_pending)
        = ServerError (UpdateFailed ''connection lost'')"
    "find_raw 2 (raw_data (snd (process_raw_data sample_parse None outage_envs two_pending)))
        = Some (raw_item 2 ''Beta'' 0)"
    by simp_all
  show ?thesis
    using a b c' first v w a2 p2 t2 f2 second by (intro conjI)
qed

text \<open>
  The claim as written has the batch never abort: here the analysis of the first record
  fails, the write of that failure throws, the exception leaves the loop, the route
  answers with a server error, and the second record is never attempted.
\<close>

theorem batch_abort_counterexample:
  "process_raw_data sample_parse None outage_envs
     \<lparr>raw_data = [raw_item 1 ''Acme'' 0, raw_item 2 ''Beta'' 0], tools = []\<rparr>
   = (ServerError (UpdateFailed ''connection lost''),
      \<lparr>raw_data = [raw_item 1 ''Acme'' 0, raw_item 2 ''Beta'' 0], tools = []\<rparr>)"
  by code_simp

lemma terminal_not_selected:
  assumes "distinct (map oid coll)" "r \<in> set coll" "status r \<noteq> 0"
  shows "oid r \<notin> oid ` set (filter (\<lambda>r. status r = 0) coll)"
proof
  assume "oid r \<in> oid ` set (filter (\<lambda>r. status r = 0) coll)"
  then obtain x where x: "x \<in> set coll" "status x = 0" "oid x = oid r" by auto
  from assms(1) have "inj_on oid (set coll)" by (simp add: distinct_map)
  with x(1,3) assms(2) have "x = r" by (auto dest: inj_onD)
  with x(2) assms(3) show False by simp
qed

lemma route_frame:
  "snd (process_raw_data parse find_fault envs st) = st
   \<or> (\<exists>res. process_loop parse envs (filter (\<lambda>r. status r = 0) (raw_data st)) [] st
              = (res, snd (process_raw_data parse find_fault envs st)))"
  by (auto simp: process_raw_data_def find_pending_def split: option.splits prod.splits sum.splits)

lemma auto_frame:
  "snd (autoProcessPendingData parse count_fault find_fault envs st) = st
   \<or> (\<exists>res. process_loop parse envs (filter (\<lambda>r. status r = 0) (raw_data st)) [] st
              = (res, snd (autoProcessPendingData parse count_fault find_fault envs st)))"
  by (auto simp: autoProcessPendingData_def find_pending_def auto_loop_counts Let_def
      split: option.splits prod.splits sum.splits)

lemma frame_terminal:
  assumes "distinct (map oid (raw_data st))" "r \<in> set (raw_data st)" "status r = 1 \<or> status r = - 1"
    and "st' = st \<or> (\<exists>res. process_loop parse envs (filter (\<lambda>r. status r = 0) (raw_data st)) [] st = (res, st'))"
  shows "find_raw (oid r) (raw_data st') = Some r
    \<and> (\<forall>x\<in>set (raw_data st'). x \<in> set (raw_data st) \<or> status x = 1 \<or> status x = - 1)"
proof -
  have here: "find_raw (oid r) (raw_data st) = Some r"
    using assms(1,2) by (rule find_raw_member)
  from assms(4) show ?thesis
  proof
    assume "st' = st"
    with here show ?thesis by simp
  next
    assume "\<exists>res. process_loop parse envs (filter (\<lambda>r. status r = 0) (raw_data st)) [] st = (res, st')"
    then obtain res where "process_loop parse envs (filter (\<lambda>r. status r = 0) (raw_data st)) [] st = (res, st')" ..
    note f = loop_frame[OF this]
    from assms(3) have "status r \<noteq> 0" by auto
    from terminal_not_selected[OF assms(1,2) this] f here show ?thesis by simp
  qed
qed

lemma item_frame:
  "snd (process_item parse objectId find_fault env itemId st) = st
   \<or> (\<exists>item res. processRawDataItem parse env item st
         = (res, snd (process_item parse objectId find_fault env itemId st)))"
  by (auto simp: process_item_def split: option.splits prod.splits sum.splits item_result.splits)

lemma item_writes:
  assumes "x \<in> set (raw_data (snd (process_item parse objectId find_fault env itemId st)))"
  shows "x \<in> set (raw_data st) \<or> status x = 1 \<or> status x = - 1"
  using item_frame[of parse objectId find_fault env itemId st] assms step_new by metis

text \<open>
  C9. In a store with distinct ids, a record with status 1 or -1 is not among the
  selected items, which all have status 0, and after the batch trigger (the route or
  \<open>autoProcessPendingData\<close>, however the run ends) the record is there unchanged. Every
  record of the collection after the run, and after a single-item trigger, is a record
  from before or has status 1 or -1.
\<close>

theorem terminal_records_untouched:
  assumes "distinct (map oid (raw_data st))" "r \<in> set (raw_data st)" "status r = 1 \<or> status r = - 1"
  shows "(\<forall>items. find_pending find_fault (raw_data st) = Inr items \<longrightarrow>
            r \<notin> set items \<and> (\<forall>x\<in>set items. status x = 0))
    \<and> find_raw (oid r) (raw_data (snd (process_raw_data parse find_fault envs st))) = Some r
    \<and> (\<forall>x\<in>set (raw_data (snd (process_raw_data parse find_fault envs st))).
          x \<in> set (raw_data st) \<or> status x = 1 \<or> status x = - 1)
    \<and> find_raw (oid r) (raw_data (snd (autoProcessPendingData parse count_fault find_fault envs st))) = Some r
    \<and> (\<forall>x\<in>set (raw_data (snd (autoProcessPendingData parse count_fault find_fault envs st))).
          x \<in> set (raw_data st) \<or> status x = 1 \<or> status x = - 1)
    \<and> (\<forall>x\<in>set (raw_data (snd (process_item parse objectId find_fault env itemId st))).
          x \<in> set (raw_data st) \<or> status x = 1 \<or> status x = - 1)"
proof -
  have sel: "\<forall>items. find_pending find_fault (raw_data st) = Inr items \<longrightarrow>
            r \<notin> set items \<and> (\<forall>x\<in>set items. status x = 0)"
    using assms(3) by (auto simp: find_pending_def split: option.splits)
  show ?thesis
    using sel frame_terminal[OF assms route_frame] frame_terminal[OF assms auto_frame] item_writes
    by blast
qed

theorem terminal_records_untouched_witness:
  "distinct (map oid (raw_data scenario_store))
   \<and> raw_item 4 ''Done'' 1 \<in> set (raw_data scenario_store)
   \<and> find_raw 4 (raw_data (snd (process_raw_data sample_parse None scenario_envs scenario_store)))
       = Some (raw_item 4 ''Done'' 1)
   \<and> find_raw 4 (raw_data (snd (autoProcessPendingData sample_parse None None outage_envs scenario_store)))
       = Some (raw_item 4 ''Done'' 1)"
proof -
  have a: "distinct (map oid (raw_data scenario_store))" by code_simp
  have b: "raw_item 4 ''Done'' 1 \<in> set (raw_data scenario_store)" by (simp add: scenario_store_def)
  have c: "status (raw_item 4 ''Done'' 1) = 1 \<or> status (raw_item 4 ''Done'' 1) = - 1"
    by (simp add: raw_item_def)
  have d: "oid (raw_item 4 ''Done'' 1) = 4" by (simp add: raw_item_def)
  show ?thesis
    using terminal_records_untouched [OF a b c, of None sample_parse scenario_envs None]
      terminal_records_untouched [OF a b c, of None sample_parse outage_envs None] a b
    unfolding d by blast
qed


end
